theory Spec2Isabelle
  imports Complex_Main "HOL-Library.AList"
begin

section \<open>Data model\<close>

text \<open>
  A shallow embedding of the RAG service: the two endpoints of
  \<^verbatim>\<open>routers/rag_agent.py\<close> (\<^verbatim>\<open>store_rag_data\<close>, \<^verbatim>\<open>retrieve_rag_data\<close>), the Pinecone
  wrapper of \<^verbatim>\<open>services/pinecone_service.py\<close> and the three singleton getters.

  Python strings are \<open>string\<close> (characters with code points below 256). A metadata
  dictionary is an association list from keys to values; \<^verbatim>\<open>d[k] = v\<close> is
  \<open>AList.update\<close> (replace in place, or append), \<^verbatim>\<open>d.get(k, default)\<close> is \<open>map_of\<close>
  with the default written out. Floats are a type parameter \<open>'f\<close>: the code only moves
  scores and vectors around, except for the average score, whose arithmetic is taken
  from a record of float operations.
\<close>

datatype mval = MStr string | MInt int

type_synonym metadata = "(string \<times> mval) list"

text \<open>
  An exception is the only error the endpoints surface: \<^verbatim>\<open>HTTPException(status_code,
  detail)\<close>. Every other exception \<open>e\<close> is known by \<^verbatim>\<open>str(e)\<close> alone, a \<open>string\<close> on the
  left of a sum.
\<close>

datatype http_error = HTTPException int string

subsection \<open>Requests and responses (\<^verbatim>\<open>routers/rag_agent.py\<close>)\<close>

record RagRequest =
  userId :: string
  email :: string

record RagStoreRequest = RagRequest +
  title :: string
  content :: string

record RagStoreResponse =
  documentId :: string
  indexed :: bool

record RagRetrieveRequest = RagRequest +
  query :: string
  topK :: int

record 'f RagRetrieveResponse =
  answer :: string
  score :: 'f

subsection \<open>Documents, nodes, vectors, matches\<close>

text \<open>
  \<^verbatim>\<open>Document(text=chunk, extra_info={...})\<close> and the nodes that
  \<^verbatim>\<open>splitter.get_nodes_from_documents\<close> returns: the code reads \<^verbatim>\<open>node.node_id\<close>,
  \<^verbatim>\<open>node.get_content()\<close> and \<^verbatim>\<open>node.metadata\<close> (\<open>None\<close> stands for an object without
  that attribute, the \<^verbatim>\<open>hasattr\<close> test of \<^verbatim>\<open>store_documents\<close>).
\<close>

record Document =
  doc_text :: string
  extra_info :: metadata

record Node =
  node_id :: string
  get_content :: string
  node_metadata :: "metadata option"

text \<open>\<^verbatim>\<open>PineconeVector\<close>: keys \<^verbatim>\<open>id\<close>, \<^verbatim>\<open>values\<close>, \<^verbatim>\<open>metadata\<close>.\<close>

record 'f PineconeVector =
  vec_id :: string
  vec_values :: "'f list"
  vec_metadata :: metadata

text \<open>
  One element of \<^verbatim>\<open>response.matches\<close> as the index returns it. An absent
  \<^verbatim>\<open>match.metadata\<close> or \<^verbatim>\<open>match.values\<close> is the empty list: the code only tests
  their truthiness.
\<close>

record 'f ScoredVector =
  sv_id :: string
  sv_score :: 'f
  sv_metadata :: metadata
  sv_values :: "'f list"

text \<open>
  The dictionary \<^verbatim>\<open>query_vectors\<close> builds per match: \<^verbatim>\<open>id\<close> and \<^verbatim>\<open>score\<close> always,
  \<^verbatim>\<open>metadata\<close> and \<^verbatim>\<open>values\<close> only when asked for and truthy.
\<close>

record 'f QueryResult =
  res_id :: string
  res_score :: 'f
  res_metadata :: "metadata option"
  res_values :: "'f list option"

text \<open>One element of \<^verbatim>\<open>context_chunks\<close> in \<^verbatim>\<open>retrieve_rag_data\<close>.\<close>

record 'f ContextChunk =
  chunk_score :: 'f
  chunk_title :: mval
  chunk_text :: mval
  chunk_timestamp :: mval
  chunk_email_id :: mval
  chunk_chunk_index :: mval

text \<open>
  What \<^verbatim>\<open>client.chat.completions.create\<close> returns, as far as \<^verbatim>\<open>generate_response\<close>
  reads it: \<^verbatim>\<open>choices[0].message.content\<close> (may be \<^verbatim>\<open>None\<close>), \<^verbatim>\<open>usage\<close> (may be
  \<^verbatim>\<open>None\<close>; prompt, completion and total tokens) and \<^verbatim>\<open>choices[0].finish_reason\<close>.
\<close>

record Completion =
  message_content :: "string option"
  completion_usage :: "(int \<times> int \<times> int) option"
  finish_reason :: string

record LLMResponse =
  llm_answer :: "string option"
  llm_model :: string
  llm_usage :: "int \<times> int \<times> int"
  sources_used :: nat
  llm_finish_reason :: string

record UpsertResult =
  upserted_count :: nat
  upsert_namespace :: string

record StorageResult =
  vectors_stored :: nat
  storage_namespace :: string
  storage_user_id :: string
  storage_email_id :: string

subsection \<open>The outside world\<close>

text \<open>
  The calls that leave the repository, in the order they are made, are logged in
  \<open>calls\<close>; \<open>index\<close> is the state of the vector index behind the Pinecone client.
  What the code prints to the console is left out.
\<close>

datatype 'f call =
    SplitText string
  | GetNodes "Document list"
  | EncodeOne string
  | EncodeMany "string list"
  | IndexUpsert "'f PineconeVector list" string
  | IndexQuery "'f list" int "metadata option" string bool bool
  | GroqCreate string "'f ContextChunk list"

record ('f, 's) world =
  calls :: "'f call list"
  index :: 's

text \<open>
  The external capabilities, none of them in the repository. A failing call raises
  an exception \<open>e\<close>, given by \<^verbatim>\<open>str(e)\<close>; none of them raises \<^verbatim>\<open>HTTPException\<close>.
  \<^item> \<open>split_text\<close>, \<open>get_nodes_from_documents\<close>: llama-index's
    \<^verbatim>\<open>SentenceSplitter(chunk_size=1024, chunk_overlap=150)\<close>;
  \<^item> \<open>encode_one\<close>, \<open>encode_many\<close>: \<^verbatim>\<open>SentenceTransformer.encode\<close> on a string and on a
    list, followed by \<^verbatim>\<open>np.array(...).tolist()\<close>;
  \<^item> \<open>index_upsert\<close>, \<open>index_query\<close>: \<^verbatim>\<open>self.index.upsert(vectors, namespace)\<close> and
    \<^verbatim>\<open>self.index.query(vector, top_k, filter, namespace, include_metadata,
    include_values)\<close> of the Pinecone client; an upsert returns the error it raised, if
    any, and the index state it left behind;
  \<^item> \<open>groq_create\<close>: \<^verbatim>\<open>self.client.chat.completions.create\<close>, a function of the query
    and the context chunks the prompt is built from (the prompt text, the sampling
    temperature 0.3 and the limit of 1024 tokens are fixed by the caller);
  \<^item> \<open>now_isoformat\<close>: \<^verbatim>\<open>datetime.now().isoformat()\<close>; \<open>groq_model\<close>: \<^verbatim>\<open>self.model\<close>;
  \<^item> \<open>response_error\<close>: \<^verbatim>\<open>str(e)\<close> of the validation error pydantic raises when
    \<^verbatim>\<open>RagRetrieveResponse\<close> is given \<^verbatim>\<open>answer=None\<close>;
  \<^item> \<open>float_zero\<close>, \<open>float_sum\<close>, \<open>float_div\<close>, \<open>float_round\<close>: the literal \<^verbatim>\<open>0.0\<close>,
    the builtin \<^verbatim>\<open>sum\<close> over floats, \<^verbatim>\<open>x / n\<close> for a float and a length, and
    \<^verbatim>\<open>round(x, ndigits)\<close>.
\<close>

record ('f, 's) env =
  split_text :: "string \<Rightarrow> string + string list"
  get_nodes_from_documents :: "Document list \<Rightarrow> string + Node list"
  encode_one :: "string \<Rightarrow> string + 'f list"
  encode_many :: "string list \<Rightarrow> string + 'f list list"
  index_upsert :: "'s \<Rightarrow> 'f PineconeVector list \<Rightarrow> string \<Rightarrow> string option \<times> 's"
  index_query :: "'s \<Rightarrow> 'f list \<Rightarrow> int \<Rightarrow> metadata option \<Rightarrow> string \<Rightarrow> bool \<Rightarrow> bool
                    \<Rightarrow> string + 'f ScoredVector list"
  groq_create :: "string \<Rightarrow> 'f ContextChunk list \<Rightarrow> string + Completion"
  now_isoformat :: string
  groq_model :: string
  response_error :: string
  float_zero :: 'f
  float_sum :: "'f list \<Rightarrow> 'f"
  float_div :: "'f \<Rightarrow> nat \<Rightarrow> 'f"
  float_round :: "'f \<Rightarrow> int \<Rightarrow> 'f"

definition log_call :: "'f call \<Rightarrow> ('f, 's) world \<Rightarrow> ('f, 's) world" where
  "log_call c w = w\<lparr>calls := calls w @ [c]\<rparr>"

subsection \<open>Python string helpers\<close>

text \<open>
  \<^verbatim>\<open>str.isspace\<close> on one character (code points below 256), \<^verbatim>\<open>str.strip()\<close> and
  \<^verbatim>\<open>str.split()\<close> without arguments.
\<close>

definition py_isspace :: "char \<Rightarrow> bool" where
  "py_isspace c = (let n = (of_char c :: nat) in
     (9 \<le> n \<and> n \<le> 13) \<or> (28 \<le> n \<and> n \<le> 32) \<or> n = 133 \<or> n = 160)"

definition py_strip :: "string \<Rightarrow> string" where
  "py_strip s = rev (dropWhile py_isspace (rev (dropWhile py_isspace s)))"

fun split_words :: "string \<Rightarrow> string \<Rightarrow> string list" where
  "split_words [] cur = (if cur = [] then [] else [cur])"
| "split_words (c # cs) cur =
     (if py_isspace c then (if cur = [] then split_words cs [] else cur # split_words cs [])
      else split_words cs (cur @ [c]))"

definition py_split :: "string \<Rightarrow> string list" where
  "py_split s = split_words s []"

section \<open>Namespace derivation\<close>

text \<open>
  The three places that derive a namespace, each an f-string of the source:
  \<^verbatim>\<open>store_documents\<close>: \<^verbatim>\<open>namespace = f"user_{user_id}_{email_id}"\<close>;
  \<^verbatim>\<open>retrieve_rag_data\<close>: \<^verbatim>\<open>namespace = f"user_{request.userId}_{request.email}"\<close>;
  \<^verbatim>\<open>search_documents\<close>: \<^verbatim>\<open>namespace = f"user_{user_id}"\<close>.
\<close>

definition store_documents_namespace :: "string \<Rightarrow> string \<Rightarrow> string" where
  "store_documents_namespace user_id email_id = ''user_'' @ user_id @ ''_'' @ email_id"

definition retrieve_rag_data_namespace :: "string \<Rightarrow> string \<Rightarrow> string" where
  "retrieve_rag_data_namespace user_id email_id = ''user_'' @ user_id @ ''_'' @ email_id"

definition search_documents_namespace :: "string \<Rightarrow> string" where
  "search_documents_namespace user_id = ''user_'' @ user_id"

section \<open>Embedding service (\<^verbatim>\<open>services/embedding_service.py\<close>)\<close>

text \<open>Both methods call the model and re-raise whatever it raises.\<close>

definition embed_text_while_searching ::
  "('f, 's) env \<Rightarrow> string \<Rightarrow> ('f, 's) world \<Rightarrow> (string + 'f list) \<times> ('f, 's) world" where
  "embed_text_while_searching E txt w = (encode_one E txt, log_call (EncodeOne txt) w)"

definition embed_texts_while_storing ::
  "('f, 's) env \<Rightarrow> string list \<Rightarrow> ('f, 's) world \<Rightarrow> (string + 'f list list) \<times> ('f, 's) world" where
  "embed_texts_while_storing E texts w = (encode_many E texts, log_call (EncodeMany texts) w)"

section \<open>Pinecone service (\<^verbatim>\<open>services/pinecone_service.py\<close>)\<close>

text \<open>
  \<^verbatim>\<open>range(0, stop, step)\<close> for a length \<open>stop\<close> and \<open>step \<noteq> 0\<close> (a negative step gives
  the empty range), and the dictionary read \<^verbatim>\<open>d.get(k, default)\<close>.
\<close>

definition py_range0 :: "nat \<Rightarrow> int \<Rightarrow> nat list" where
  "py_range0 stop step =
     (if step \<le> 0 then []
      else map (\<lambda>k. k * nat step) [0..<(stop + nat step - 1) div nat step])"

definition dict_get :: "metadata \<Rightarrow> string \<Rightarrow> mval \<Rightarrow> mval" where
  "dict_get d k dflt = (case map_of d k of Some v \<Rightarrow> v | None \<Rightarrow> dflt)"

text \<open>
  The loop of \<^verbatim>\<open>upsert_vectors\<close> over the indices \<^verbatim>\<open>range(0, len(vectors),
  batch_size)\<close>: \<^verbatim>\<open>batch = vectors[i:i + batch_size]\<close>, one \<^verbatim>\<open>self.index.upsert\<close> per
  batch. An exception leaves the loop at once and is re-raised by the handler.
\<close>

fun upsert_loop ::
  "('f, 's) env \<Rightarrow> 'f PineconeVector list \<Rightarrow> string \<Rightarrow> nat \<Rightarrow> nat list \<Rightarrow> nat
     \<Rightarrow> ('f, 's) world \<Rightarrow> (string + nat) \<times> ('f, 's) world" where
  "upsert_loop E vectors namespace batch_size [] total_upserted w = (Inr total_upserted, w)"
| "upsert_loop E vectors namespace batch_size (i # is) total_upserted w =
     (let batch = take batch_size (drop i vectors);
          w1 = log_call (IndexUpsert batch namespace) w
      in case index_upsert E (index w1) batch namespace of
           (Some e, s) \<Rightarrow> (Inl e, w1\<lparr>index := s\<rparr>)
         | (None, s) \<Rightarrow>
             upsert_loop E vectors namespace batch_size is (total_upserted + length batch)
               (w1\<lparr>index := s\<rparr>))"

definition upsert_vectors ::
  "('f, 's) env \<Rightarrow> 'f PineconeVector list \<Rightarrow> string \<Rightarrow> int \<Rightarrow> ('f, 's) world
     \<Rightarrow> (string + UpsertResult) \<times> ('f, 's) world" where
  "upsert_vectors E vectors namespace batch_size w =
     (if batch_size = 0 then (Inl ''range() arg 3 must not be zero'', w)
      else case upsert_loop E vectors namespace (nat batch_size)
                  (py_range0 (length vectors) batch_size) 0 w of
             (Inl e, w') \<Rightarrow> (Inl e, w')
           | (Inr total_upserted, w') \<Rightarrow>
               (Inr \<lparr>upserted_count = total_upserted,
                     upsert_namespace = (if namespace = [] then ''default'' else namespace)\<rparr>, w'))"

definition query_vectors ::
  "('f, 's) env \<Rightarrow> 'f list \<Rightarrow> int \<Rightarrow> metadata option \<Rightarrow> string \<Rightarrow> bool \<Rightarrow> bool
     \<Rightarrow> ('f, 's) world \<Rightarrow> (string + 'f QueryResult list) \<times> ('f, 's) world" where
  "query_vectors E query_vector top_k filter_metadata namespace include_metadata include_values w =
     (let w1 = log_call (IndexQuery query_vector top_k filter_metadata namespace
                           include_metadata include_values) w
      in case index_query E (index w1) query_vector top_k filter_metadata namespace
                include_metadata include_values of
           Inl e \<Rightarrow> (Inl e, w1)
         | Inr matches \<Rightarrow>
             (Inr (map (\<lambda>m. \<lparr>res_id = sv_id m, res_score = sv_score m,
                              res_metadata = (if include_metadata \<and> sv_metadata m \<noteq> []
                                              then Some (sv_metadata m) else None),
                              res_values = (if include_values \<and> sv_values m \<noteq> []
                                            then Some (sv_values m) else None)\<rparr>) matches), w1))"

text \<open>
  The body of the loop of \<^verbatim>\<open>store_documents\<close> over \<^verbatim>\<open>zip(nodes, embeddings)\<close>: the
  node's metadata with \<^verbatim>\<open>text\<close>, \<^verbatim>\<open>user_id\<close>, \<^verbatim>\<open>email_id\<close> and \<^verbatim>\<open>title\<close> set, in that
  order. The source sets the four keys in the node's own dictionary, in place, and
  puts that dictionary into the record; the model takes every node to have a
  dictionary of its own, so that the keys set for one node do not reach the record of
  another. Were two nodes to share one dictionary, their records would share the
  \<^verbatim>\<open>text\<close> of the later node; the other three keys are the same for all nodes of a call.
\<close>

definition store_documents_vector ::
  "string \<Rightarrow> string \<Rightarrow> string \<Rightarrow> Node \<times> 'f list \<Rightarrow> 'f PineconeVector" where
  "store_documents_vector user_id email_id ttl ne =
     (let node = fst ne; embedding = snd ne;
          metadata = (case node_metadata node of Some m \<Rightarrow> m | None \<Rightarrow> []);
          metadata = AList.update ''text'' (MStr (get_content node)) metadata;
          metadata = AList.update ''user_id'' (MStr user_id) metadata;
          metadata = AList.update ''email_id'' (MStr email_id) metadata;
          metadata = AList.update ''title'' (MStr ttl) metadata
      in \<lparr>vec_id = node_id node, vec_values = embedding, vec_metadata = metadata\<rparr>)"

definition store_documents ::
  "('f, 's) env \<Rightarrow> Node list \<Rightarrow> 'f list list \<Rightarrow> string \<Rightarrow> string \<Rightarrow> string
     \<Rightarrow> ('f, 's) world \<Rightarrow> (string + StorageResult) \<times> ('f, 's) world" where
  "store_documents E nodes embeddings user_id email_id ttl w =
     (let namespace = store_documents_namespace user_id email_id;
          pinecone_vectors = map (store_documents_vector user_id email_id ttl) (zip nodes embeddings)
      in case upsert_vectors E pinecone_vectors namespace 100 w of
           (Inl e, w') \<Rightarrow> (Inl e, w')
         | (Inr upsert_result, w') \<Rightarrow>
             (Inr \<lparr>vectors_stored = upserted_count upsert_result,
                   storage_namespace = namespace,
                   storage_user_id = user_id,
                   storage_email_id = email_id\<rparr>, w'))"

definition search_documents ::
  "('f, 's) env \<Rightarrow> 'f list \<Rightarrow> string \<Rightarrow> int \<Rightarrow> string option
     \<Rightarrow> ('f, 's) world \<Rightarrow> (string + 'f QueryResult list) \<times> ('f, 's) world" where
  "search_documents E query_vector user_id top_k email_id w =
     (let namespace = search_documents_namespace user_id;
          filter_metadata = [(''user_id'', MStr user_id)];
          filter_metadata = (case email_id of
                               None \<Rightarrow> filter_metadata
                             | Some e \<Rightarrow> (if e = [] then filter_metadata
                                         else AList.update ''email_id'' (MStr e) filter_metadata))
      in query_vectors E query_vector top_k (Some filter_metadata) namespace True False w)"

section \<open>LLM service (\<^verbatim>\<open>services/llm_service.py\<close>)\<close>

definition generate_response ::
  "('f, 's) env \<Rightarrow> string \<Rightarrow> 'f ContextChunk list \<Rightarrow> ('f, 's) world
     \<Rightarrow> (string + LLMResponse) \<times> ('f, 's) world" where
  "generate_response E qry context_chunks w =
     (let w1 = log_call (GroqCreate qry context_chunks) w
      in case groq_create E qry context_chunks of
           Inl e \<Rightarrow> (Inl e, w1)
         | Inr completion \<Rightarrow>
             (Inr \<lparr>llm_answer = message_content completion,
                   llm_model = groq_model E,
                   llm_usage = (case completion_usage completion of
                                  Some u \<Rightarrow> u | None \<Rightarrow> (0, 0, 0)),
                   sources_used = length context_chunks,
                   llm_finish_reason = finish_reason completion\<rparr>, w1))"

section \<open>The endpoints (\<^verbatim>\<open>routers/rag_agent.py\<close>)\<close>

text \<open>
  The \<^verbatim>\<open>Document\<close> built for chunk number \<open>idx\<close> in the loop of \<^verbatim>\<open>store_rag_data\<close>.
\<close>

definition chunk_document ::
  "RagStoreRequest \<Rightarrow> string \<Rightarrow> nat \<Rightarrow> nat \<times> string \<Rightarrow> Document" where
  "chunk_document request timestamp total_chunks ic =
     (let idx = fst ic; chunk = snd ic
      in \<lparr>doc_text = chunk,
          extra_info =
            [(''user_id'', MStr (userId request)),
             (''email_id'', MStr (email request)),
             (''title'', MStr (title request)),
             (''chunk_index'', MInt (int idx)),
             (''total_chunks'', MInt (int total_chunks)),
             (''timestamp'', MStr timestamp),
             (''source_type'', MStr ''email''),
             (''chunk_length'', MInt (int (length chunk))),
             (''word_count'', MInt (int (length (py_split chunk))))]\<rparr>)"

text \<open>
  \<^verbatim>\<open>store_rag_data\<close>. \<^verbatim>\<open>HTTPException\<close> passes through the handler; any other exception
  \<open>e\<close> becomes status 500 with detail \<^verbatim>\<open>f"Failed to store data: {str(e)}"\<close>.
\<close>

definition store_rag_data ::
  "('f, 's) env \<Rightarrow> RagStoreRequest \<Rightarrow> ('f, 's) world
     \<Rightarrow> (http_error + RagStoreResponse) \<times> ('f, 's) world" where
  "store_rag_data E request w =
     (if content request = [] \<or> length (py_strip (content request)) = 0
      then (Inl (HTTPException 400 ''Content cannot be empty''), w)
      else
        let w1 = log_call (SplitText (content request)) w in
        (case split_text E (content request) of
           Inl e \<Rightarrow> (Inl (HTTPException 500 (''Failed to store data: '' @ e)), w1)
         | Inr chunks \<Rightarrow>
             (let timestamp = now_isoformat E;
                  docs = map (chunk_document request timestamp (length chunks))
                           (enumerate 0 chunks);
                  w2 = log_call (GetNodes docs) w1
              in (case get_nodes_from_documents E docs of
                    Inl e \<Rightarrow> (Inl (HTTPException 500 (''Failed to store data: '' @ e)), w2)
                  | Inr nodes \<Rightarrow>
                      (let node_texts = map get_content nodes
                       in (case embed_texts_while_storing E node_texts w2 of
                             (Inl e, w3) \<Rightarrow>
                               (Inl (HTTPException 500 (''Failed to store data: '' @ e)), w3)
                           | (Inr embeddings, w3) \<Rightarrow>
                               (case store_documents E nodes embeddings (userId request)
                                       (email request) (title request) w3 of
                                  (Inl e, w4) \<Rightarrow>
                                    (Inl (HTTPException 500 (''Failed to store data: '' @ e)),
                                     w4)
                                | (Inr storage_result, w4) \<Rightarrow>
                                    (Inr \<lparr>documentId = email request, indexed = True\<rparr>,
                                     w4))))))))"

text \<open>One entry of \<^verbatim>\<open>context_chunks\<close>, built from one match.\<close>

definition context_chunk :: "'f QueryResult \<Rightarrow> 'f ContextChunk" where
  "context_chunk m =
     (let metadata = (case res_metadata m of Some md \<Rightarrow> md | None \<Rightarrow> [])
      in \<lparr>chunk_score = res_score m,
          chunk_title = dict_get metadata ''title'' (MStr ''Untitled''),
          chunk_text = dict_get metadata ''text'' (MStr []),
          chunk_timestamp = dict_get metadata ''timestamp'' (MStr []),
          chunk_email_id = dict_get metadata ''email_id'' (MStr []),
          chunk_chunk_index = dict_get metadata ''chunk_index'' (MInt 0)\<rparr>)"

definition no_information_answer :: string where
  "no_information_answer =
     ''I couldn'' @ [CHR 0x27] @
     ''t find any relevant information in your documents to answer this question.''"

text \<open>
  \<^verbatim>\<open>retrieve_rag_data\<close>. The filter is \<^verbatim>\<open>{"user_id": request.userId}\<close>, the namespace the
  f-string above; \<^verbatim>\<open>include_metadata=True\<close>, \<^verbatim>\<open>include_values=False\<close>. A \<^verbatim>\<open>None\<close> answer
  of the model fails the construction of the response, inside the handler.
\<close>

definition retrieve_rag_data ::
  "('f, 's) env \<Rightarrow> RagRetrieveRequest \<Rightarrow> ('f, 's) world
     \<Rightarrow> (http_error + 'f RagRetrieveResponse) \<times> ('f, 's) world" where
  "retrieve_rag_data E request w =
     (if query request = [] \<or> length (py_strip (query request)) = 0
      then (Inl (HTTPException 400 ''Query cannot be empty''), w)
      else
        (case embed_text_while_searching E (query request) w of
           (Inl e, w1) \<Rightarrow> (Inl (HTTPException 500 (''Failed to retrieve data: '' @ e)), w1)
         | (Inr query_embedding, w1) \<Rightarrow>
             (let namespace = retrieve_rag_data_namespace (userId request) (email request)
              in (case query_vectors E query_embedding (topK request)
                         (Some [(''user_id'', MStr (userId request))]) namespace True False w1 of
                    (Inl e, w2) \<Rightarrow>
                      (Inl (HTTPException 500 (''Failed to retrieve data: '' @ e)), w2)
                  | (Inr pinecone_results, w2) \<Rightarrow>
                      (if pinecone_results = []
                       then (Inr \<lparr>answer = no_information_answer, score = float_zero E\<rparr>, w2)
                       else
                         (let context_chunks = map context_chunk pinecone_results
                          in (case generate_response E (query request) context_chunks w2 of
                                (Inl e, w3) \<Rightarrow>
                                  (Inl (HTTPException 500 (''Failed to retrieve data: '' @ e)),
                                   w3)
                              | (Inr llm_response, w3) \<Rightarrow>
                                  (let average_score =
                                         (if context_chunks \<noteq> []
                                          then float_div E
                                                 (float_sum E (map chunk_score context_chunks))
                                                 (length context_chunks)
                                          else float_zero E)
                                   in (case llm_answer llm_response of
                                         None \<Rightarrow>
                                           (Inl (HTTPException 500
                                              (''Failed to retrieve data: '' @ response_error E)),
                                            w3)
                                       | Some a \<Rightarrow>
                                           (Inr \<lparr>answer = a,
                                                 score = float_round E average_score 4\<rparr>,
                                            w3))))))))))"

section \<open>The vector index\<close>

text \<open>
  Modelled from the spec: the vector index behind the Pinecone client, an external
  service of which the repository holds only the client calls. Following the spec's
  \<^verbatim>\<open>query(namespace, vector, topK, metadataFilter, includeMetadata) -> ordered matches\<close>
  and \<^verbatim>\<open>upsert(namespace, records, batchSize)\<close>: the index is a list of records, each under
  its namespace; an upsert replaces the records of the same id in the namespace; a
  query looks only at the records of the given namespace ("namespace restricts the
  search space at the store level"), keeps those whose metadata equal the filter on
  every key of the filter ("filter additionally restricts by metadata equality"), ranks
  them by descending similarity to the query vector and returns the first \<open>top_k\<close>. The
  similarity measure \<open>sim\<close> is a parameter.
\<close>

type_synonym 'f pinecone_index = "(string \<times> 'f PineconeVector) list"

definition matches_filter :: "metadata option \<Rightarrow> metadata \<Rightarrow> bool" where
  "matches_filter flt md =
     (case flt of None \<Rightarrow> True | Some f \<Rightarrow> list_all (\<lambda>kv. map_of md (fst kv) = Some (snd kv)) f)"

definition pinecone_upsert ::
  "'f pinecone_index \<Rightarrow> 'f PineconeVector list \<Rightarrow> string \<Rightarrow> string option \<times> 'f pinecone_index" where
  "pinecone_upsert s vectors ns =
     (None, filter (\<lambda>nr. \<not> (fst nr = ns \<and> vec_id (snd nr) \<in> set (map vec_id vectors))) s
            @ map (Pair ns) vectors)"

definition pinecone_query ::
  "('f list \<Rightarrow> 'f list \<Rightarrow> 'f::linorder) \<Rightarrow> 'f pinecone_index \<Rightarrow> 'f list \<Rightarrow> int \<Rightarrow> metadata option
     \<Rightarrow> string \<Rightarrow> bool \<Rightarrow> bool \<Rightarrow> string + 'f ScoredVector list" where
  "pinecone_query sim s query_vector top_k flt ns include_metadata include_values =
     (let candidates =
            map snd (filter (\<lambda>nr. fst nr = ns \<and> matches_filter flt (vec_metadata (snd nr))) s);
          ranked = rev (sort_key (\<lambda>r. sim query_vector (vec_values r)) candidates)
      in Inr (map (\<lambda>r. \<lparr>sv_id = vec_id r,
                        sv_score = sim query_vector (vec_values r),
                        sv_metadata = (if include_metadata then vec_metadata r else []),
                        sv_values = (if include_values then vec_values r else [])\<rparr>)
                (take (nat top_k) ranked)))"

text \<open>An index that refuses an upsert that would take it beyond \<open>cap\<close> records.\<close>

definition capped_upsert ::
  "nat \<Rightarrow> 'f pinecone_index \<Rightarrow> 'f PineconeVector list \<Rightarrow> string
     \<Rightarrow> string option \<times> 'f pinecone_index" where
  "capped_upsert cap s vectors ns =
     (if cap < length s + length vectors then (Some ''index full'', s)
      else pinecone_upsert s vectors ns)"

section \<open>Notions used by the properties\<close>

text \<open>The external calls made between two states of the world.\<close>

definition new_calls :: "('f, 's) world \<Rightarrow> ('f, 's) world \<Rightarrow> 'f call list" where
  "new_calls w w' = drop (length (calls w)) (calls w')"

text \<open>A string that is empty or consists of whitespace only.\<close>

definition whitespace_only :: "string \<Rightarrow> bool" where
  "whitespace_only s = list_all py_isspace s"

text \<open>
  The spec's batching, "batched internally by the store's batch-size limit": the
  records cut into consecutive batches of \<open>n\<close>, the last one possibly shorter.
\<close>

function batches :: "nat \<Rightarrow> 'a list \<Rightarrow> 'a list list" where
  "batches n xs = (if n = 0 \<or> xs = [] then [] else take n xs # batches n (drop n xs))"
  by pat_completeness auto
termination
  by (relation "measure (\<lambda>(n, xs). length xs)") auto

declare batches.simps [simp del]

text \<open>
  The spec's non-transactional upsert, "a partial-batch failure aborts the remaining
  batches and surfaces the store's error": the batches go to the index one after the
  other until one fails. The result is the error, if any, the number of batches
  attempted and the index state left behind.
\<close>

fun run_batches ::
  "('f, 's) env \<Rightarrow> string \<Rightarrow> 'f PineconeVector list list \<Rightarrow> 's \<Rightarrow> string option \<times> nat \<times> 's" where
  "run_batches E ns [] s = (None, 0, s)"
| "run_batches E ns (b # bs) s =
     (case index_upsert E s b ns of
        (Some e, s') \<Rightarrow> (Some e, 1, s')
      | (None, s') \<Rightarrow> (case run_batches E ns bs s' of (r, k, s'') \<Rightarrow> (r, Suc k, s'')))"

text \<open>
  The spec's score aggregation: "\<^verbatim>\<open>mean(match.score for match in matches)\<close>, rounded to
  4 decimal places".
\<close>

definition aggregate_score :: "('f, 's) env \<Rightarrow> 'f list \<Rightarrow> 'f" where
  "aggregate_score E scores =
     float_round E (float_div E (float_sum E scores) (length scores)) 4"

text \<open>
  What the node parser of llama-index does with metadata, as far as the chunk fields
  depend on it: every node it returns carries the metadata of one of the documents
  it was given.
\<close>

definition nodes_inherit_metadata :: "('f, 's) env \<Rightarrow> bool" where
  "nodes_inherit_metadata E =
     (\<forall>docs nodes. get_nodes_from_documents E docs = Inr nodes \<longrightarrow>
        (\<forall>n\<in>set nodes. \<exists>d\<in>set docs. node_metadata n = Some (extra_info d)))"

section \<open>The singleton getters\<close>

text \<open>
  \<^verbatim>\<open>get_embedding_service\<close>, \<^verbatim>\<open>get_pinecone_service\<close> and \<^verbatim>\<open>get_llm_service\<close> have one
  body, each on the global of its own module:
  \<^verbatim>\<open>
  global _instance
  if _instance is None:
      _instance = Service(...)
  return _instance
  \<close>
  The module state is the global and, for counting, the instances the constructor has
  returned so far. The constructor \<open>new\<close> is given the number of instances that exist
  and returns a fresh one, or raises.
\<close>

record 'i module_state =
  service_instance :: "'i option"
  constructed :: "'i list"

definition get_service ::
  "(nat \<Rightarrow> string + 'i) \<Rightarrow> 'i module_state \<Rightarrow> (string + 'i option) \<times> 'i module_state" where
  "get_service new g =
     (case service_instance g of
        None \<Rightarrow>
          (case new (length (constructed g)) of
             Inl e \<Rightarrow> (Inl e, g)
           | Inr i \<Rightarrow> (Inr (Some i), g\<lparr>service_instance := Some i,
                                      constructed := constructed g @ [i]\<rparr>))
      | Some i \<Rightarrow> (Inr (Some i), g))"

text \<open>Calls made one after the other, each finished before the next begins.\<close>

fun get_service_times ::
  "(nat \<Rightarrow> string + 'i) \<Rightarrow> nat \<Rightarrow> 'i module_state
     \<Rightarrow> (string + 'i option) list \<times> 'i module_state" where
  "get_service_times new 0 g = ([], g)"
| "get_service_times new (Suc n) g =
     (case get_service new g of
        (r, g') \<Rightarrow> (case get_service_times new n g' of (rs, g'') \<Rightarrow> (r # rs, g'')))"

text \<open>
  The same body, one statement at a time, for calls that run on several threads: the
  test of the global, the constructor call, the assignment and the read of the global
  for \<^verbatim>\<open>return\<close> are separate steps, and nothing in the source keeps another thread from
  running between them. A schedule names the thread that takes the next step.
\<close>

datatype 'i pc = Check | Construct | Assign 'i | Return | Returned "'i option" | Raised string

definition thread_step ::
  "(nat \<Rightarrow> string + 'i) \<Rightarrow> 'i pc \<Rightarrow> 'i module_state \<Rightarrow> 'i pc \<times> 'i module_state" where
  "thread_step new p g =
     (case p of
        Check \<Rightarrow> (if service_instance g = None then Construct else Return, g)
      | Construct \<Rightarrow>
          (case new (length (constructed g)) of
             Inl e \<Rightarrow> (Raised e, g)
           | Inr i \<Rightarrow> (Assign i, g\<lparr>constructed := constructed g @ [i]\<rparr>))
      | Assign i \<Rightarrow> (Return, g\<lparr>service_instance := Some i\<rparr>)
      | Return \<Rightarrow> (Returned (service_instance g), g)
      | Returned r \<Rightarrow> (Returned r, g)
      | Raised e \<Rightarrow> (Raised e, g))"

fun run_schedule ::
  "(nat \<Rightarrow> string + 'i) \<Rightarrow> nat list \<Rightarrow> 'i pc list \<times> 'i module_state
     \<Rightarrow> 'i pc list \<times> 'i module_state" where
  "run_schedule new [] cfg = cfg"
| "run_schedule new (t # ts) cfg =
     (if t < length (fst cfg)
      then case thread_step new (fst cfg ! t) (snd cfg) of
             (p, g) \<Rightarrow> run_schedule new ts ((fst cfg)[t := p], g)
      else run_schedule new ts cfg)"

text \<open>The states sequential calls can reach: nothing created, or one instance that the
  global holds.\<close>

definition singleton_inv :: "'i module_state \<Rightarrow> bool" where
  "singleton_inv g \<longleftrightarrow>
     (service_instance g = None \<and> constructed g = [])
     \<or> (\<exists>x. service_instance g = Some x \<and> constructed g = [x])"

section \<open>Floats\<close>

text \<open>
  Python's floats are IEEE 754 binary64 numbers. For the examples they are the
  rationals that binary64 represents: \<open>binary64\<close> rounds a rational to the nearest one,
  ties to even (normal and subnormal range, no overflow); an operation is the exact
  operation followed by that rounding. \<^verbatim>\<open>sum\<close> adds from the left, starting at 0;
  \<^verbatim>\<open>round(x, ndigits)\<close> for \<open>ndigits \<ge> 0\<close> rounds the exact value of \<open>x\<close> to that many
  decimals, ties to even, and returns the float nearest to the result.
\<close>

definition round_half_even :: "rat \<Rightarrow> int" where
  "round_half_even x =
     (let f = \<lfloor>x\<rfloor>; d = x - of_int f
      in if d < 1 / 2 then f else if 1 / 2 < d then f + 1 else if even f then f else f + 1)"

definition pow2 :: "int \<Rightarrow> rat" where
  "pow2 e = (if 0 \<le> e then 2 ^ nat e else 1 / 2 ^ nat (- e))"

function bit_length :: "int \<Rightarrow> int" where
  "bit_length n = (if n \<le> 0 then 0 else 1 + bit_length (n div 2))"
  by pat_completeness auto
termination
  by (relation "measure nat") auto

declare bit_length.simps [simp del]

text \<open>\<open>ilog2 x\<close> is the largest \<open>e\<close> with \<open>2\<^sup>e \<le> x\<close>, for \<open>x > 0\<close>.\<close>

definition ilog2 :: "rat \<Rightarrow> int" where
  "ilog2 x =
     (let pq = quotient_of x;
          d = bit_length (fst pq) - bit_length (snd pq)
      in if pow2 d \<le> x then d else d - 1)"

definition binary64 :: "rat \<Rightarrow> rat" where
  "binary64 x =
     (if x = 0 then 0
      else let e = max (ilog2 \<bar>x\<bar>) (- 1022);
               ulp = pow2 (e - 52)
           in of_int (round_half_even (x / ulp)) * ulp)"

definition b64_sum :: "rat list \<Rightarrow> rat" where
  "b64_sum xs = foldl (\<lambda>a x. binary64 (a + x)) 0 xs"

definition b64_div :: "rat \<Rightarrow> nat \<Rightarrow> rat" where
  "b64_div x n = binary64 (x / of_nat n)"

definition b64_round :: "rat \<Rightarrow> int \<Rightarrow> rat" where
  "b64_round x ndigits =
     binary64 (of_int (round_half_even (x * 10 ^ nat ndigits)) / 10 ^ nat ndigits)"

section \<open>An example deployment\<close>

text \<open>
  A concrete outside world to run the endpoints in: a splitter that returns the text
  as its only chunk, a node parser that makes one node per document and hands it the
  document's metadata, an embedding of a text by its length, the index modelled above
  with a capacity and the dot product as similarity, a model that always answers
  \<^verbatim>\<open>ok\<close>, and binary64 arithmetic.
\<close>

definition dot :: "rat list \<Rightarrow> rat list \<Rightarrow> rat" where
  "dot xs ys = sum_list (map2 (*) xs ys)"

definition demo_node :: "nat \<times> Document \<Rightarrow> Node" where
  "demo_node nd = \<lparr>node_id = doc_text (snd nd) @ replicate (Suc (fst nd)) (CHR ''#''),
                   get_content = doc_text (snd nd),
                   node_metadata = Some (extra_info (snd nd))\<rparr>"

definition demo_env :: "nat \<Rightarrow> (rat, rat pinecone_index) env" where
  "demo_env cap =
     \<lparr>split_text = (\<lambda>s. Inr [s]),
      get_nodes_from_documents = (\<lambda>docs. Inr (map demo_node (enumerate 0 docs))),
      encode_one = (\<lambda>s. Inr [of_nat (length s)]),
      encode_many = (\<lambda>ts. Inr (map (\<lambda>s. [of_nat (length s)]) ts)),
      index_upsert = capped_upsert cap,
      index_query = pinecone_query dot,
      groq_create = (\<lambda>q cs. Inr \<lparr>message_content = Some ''ok'', completion_usage = None,
                                 finish_reason = ''stop''\<rparr>),
      now_isoformat = ''2024-01-01T00:00:00'',
      groq_model = ''llama-3.3-70b-versatile'',
      response_error = ''Input should be a valid string'',
      float_zero = 0,
      float_sum = b64_sum,
      float_div = b64_div,
      float_round = b64_round\<rparr>"

text \<open>The same world with an index that answers every query with matches of given scores.\<close>

definition scored_match :: "rat \<Rightarrow> rat ScoredVector" where
  "scored_match s = \<lparr>sv_id = ''m'', sv_score = s, sv_metadata = [(''title'', MStr ''T'')],
                     sv_values = []\<rparr>"

definition scores_env :: "rat list \<Rightarrow> (rat, rat pinecone_index) env" where
  "scores_env scores =
     (demo_env 0)\<lparr>index_query := (\<lambda>s qv k flt ns im iv. Inr (map scored_match scores))\<rparr>"

definition demo_vectors :: "nat \<Rightarrow> rat PineconeVector list" where
  "demo_vectors n =
     map (\<lambda>i. \<lparr>vec_id = replicate (Suc i) (CHR ''v''), vec_values = [of_nat i],
               vec_metadata = []\<rparr>) [0..<n]"

definition empty_world :: "(rat, rat pinecone_index) world" where
  "empty_world = \<lparr>calls = [], index = []\<rparr>"

text \<open>
  A store request and a query request of a tenant, and the document and the record
  that the store request makes in the example deployment.
\<close>

definition demo_request :: "string \<Rightarrow> string \<Rightarrow> string \<Rightarrow> RagStoreRequest" where
  "demo_request u e c = \<lparr>userId = u, email = e, title = ''T'', content = c\<rparr>"

definition demo_query :: "string \<Rightarrow> string \<Rightarrow> string \<Rightarrow> RagRetrieveRequest" where
  "demo_query u e q = \<lparr>userId = u, email = e, query = q, topK = 10\<rparr>"

definition demo_metadata :: "string \<Rightarrow> string \<Rightarrow> string \<Rightarrow> metadata" where
  "demo_metadata u e c =
     [(''user_id'', MStr u), (''email_id'', MStr e), (''title'', MStr ''T''),
      (''chunk_index'', MInt 0), (''total_chunks'', MInt 1),
      (''timestamp'', MStr ''2024-01-01T00:00:00''), (''source_type'', MStr ''email''),
      (''chunk_length'', MInt (int (length c))),
      (''word_count'', MInt (int (length (py_split c))))]"

definition demo_document :: "string \<Rightarrow> string \<Rightarrow> string \<Rightarrow> Document" where
  "demo_document u e c = \<lparr>doc_text = c, extra_info = demo_metadata u e c\<rparr>"

definition demo_vector :: "string \<Rightarrow> string \<Rightarrow> string \<Rightarrow> rat PineconeVector" where
  "demo_vector u e c =
     \<lparr>vec_id = c @ ''#'', vec_values = [of_nat (length c)],
      vec_metadata = demo_metadata u e c @ [(''text'', MStr c)]\<rparr>"

text \<open>
  The world after tenant \<open>a\<close> has stored document \<open>b_c\<close> and tenant \<open>a_b\<close> has
  stored document \<open>c\<close>.
\<close>

definition two_tenant_world :: "(rat, rat pinecone_index) world" where
  "two_tenant_world =
     snd (store_rag_data (demo_env 1000) (demo_request ''a_b'' ''c'' ''world'')
            (snd (store_rag_data (demo_env 1000) (demo_request ''a'' ''b_c'' ''hello'')
                    empty_world)))"

section \<open>Properties: namespaces\<close>

text \<open>The store path and the query endpoint derive the same namespace from a pair.\<close>

lemma store_and_retrieve_namespace_agree:
  "retrieve_rag_data_namespace u d = store_documents_namespace u d"
  by (simp add: retrieve_rag_data_namespace_def store_documents_namespace_def)

text \<open>
  C2. Every operation that derives a namespace from a pair \<open>(ownerId, documentId)\<close>
  should yield the same string. \<^verbatim>\<open>store_documents\<close> and \<^verbatim>\<open>retrieve_rag_data\<close> do;
  \<^verbatim>\<open>search_documents\<close> leaves the document id out of the namespace and puts it into
  the filter: for the pair \<open>(u1, d1)\<close> the one query it issues searches \<^verbatim>\<open>user_u1\<close>,
  while the records of the pair were stored under \<^verbatim>\<open>user_u1_d1\<close>. For no pair at all
  does it search the namespace that the records of the pair are stored under.
\<close>

theorem search_documents_namespace_differs:
  "search_documents_namespace ''u1'' = ''user_u1''
   \<and> store_documents_namespace ''u1'' ''d1'' = ''user_u1_d1''
   \<and> retrieve_rag_data_namespace ''u1'' ''d1'' = ''user_u1_d1''
   \<and> new_calls w (snd (search_documents E qv ''u1'' 5 (Some ''d1'') w))
       = [IndexQuery qv 5 (Some [(''user_id'', MStr ''u1''), (''email_id'', MStr ''d1'')])
            ''user_u1'' True False]
   \<and> search_documents_namespace u \<noteq> store_documents_namespace u d"
  by (simp add: search_documents_namespace_def store_documents_namespace_def
        retrieve_rag_data_namespace_def search_documents_def query_vectors_def
        new_calls_def log_call_def Let_def split: sum.splits)

section \<open>Properties: validation\<close>

lemma strip_whitespace_only: "whitespace_only s \<Longrightarrow> py_strip s = []"
proof -
  assume "whitespace_only s"
  then have "\<forall>c\<in>set s. py_isspace c"
    by (simp add: whitespace_only_def list_all_iff)
  then have h: "dropWhile py_isspace s = []"
    by (simp only: dropWhile_eq_Nil_conv)
  show ?thesis unfolding py_strip_def h by simp
qed

text \<open>
  C5. Fail-fast validation: when the content (for store) or the query text (for query)
  is empty or whitespace-only, the endpoint raises the 400 error and the world is
  unchanged: no call to the splitter, the embedding model, the index or the language
  model has been made, and the index is as it was.
\<close>

theorem blank_input_fails_fast:
  "(whitespace_only (content sreq) \<longrightarrow>
      store_rag_data E sreq w = (Inl (HTTPException 400 ''Content cannot be empty''), w))
   \<and> (whitespace_only (query rreq) \<longrightarrow>
      retrieve_rag_data E rreq w = (Inl (HTTPException 400 ''Query cannot be empty''), w))"
  by (simp add: store_rag_data_def retrieve_rag_data_def strip_whitespace_only)

theorem blank_input_fails_fast_witness:
  "whitespace_only [CHR 0x20, CHR 0x09, CHR 0x0A]
   \<and> store_rag_data (demo_env 1000)
         \<lparr>userId = ''u1'', email = ''d1'', title = ''T'',
          content = [CHR 0x20, CHR 0x09, CHR 0x0A]\<rparr> empty_world
       = (Inl (HTTPException 400 ''Content cannot be empty''), empty_world)
   \<and> whitespace_only []
   \<and> retrieve_rag_data (demo_env 1000)
         \<lparr>userId = ''u1'', email = ''d1'', query = [], topK = 10\<rparr> empty_world
       = (Inl (HTTPException 400 ''Query cannot be empty''), empty_world)"
  using blank_input_fails_fast
          [where sreq = "\<lparr>userId = ''u1'', email = ''d1'', title = ''T'',
                           content = [CHR 0x20, CHR 0x09, CHR 0x0A]\<rparr>"
             and rreq = "\<lparr>userId = ''u1'', email = ''d1'', query = [], topK = 10\<rparr>"
             and E = "demo_env 1000" and w = empty_world]
  by (simp add: whitespace_only_def py_isspace_def)

section \<open>Properties: the query endpoint\<close>

lemma strip_not_whitespace_only:
  assumes "\<not> whitespace_only s"
  shows "s \<noteq> [] \<and> py_strip s \<noteq> []"
proof -
  from assms obtain c where c: "c \<in> set s" "\<not> py_isspace c"
    by (auto simp add: whitespace_only_def list_all_iff)
  let ?t = "dropWhile py_isspace s"
  have t: "?t \<noteq> []"
  proof
    assume "?t = []"
    then have "\<forall>x\<in>set s. py_isspace x" by (simp only: dropWhile_eq_Nil_conv)
    then show False using c by simp
  qed
  then have h: "\<not> py_isspace (hd ?t)" by (rule hd_dropWhile)
  have m: "hd ?t \<in> set (rev ?t)" using t by simp
  have "dropWhile py_isspace (rev ?t) \<noteq> []"
  proof
    assume "dropWhile py_isspace (rev ?t) = []"
    then have "\<forall>x\<in>set (rev ?t). py_isspace x" by (simp only: dropWhile_eq_Nil_conv)
    then show False using h m by blast
  qed
  then have "py_strip s \<noteq> []" by (simp only: py_strip_def rev_is_Nil_conv not_False_eq_True)
  moreover have "s \<noteq> []" using c by auto
  ultimately show ?thesis by simp
qed

lemma index_log_call: "index (log_call c w) = index w"
  by (simp add: log_call_def)

lemma calls_log_call: "calls (log_call c w) = calls w @ [c]"
  by (simp add: log_call_def)

lemma query_vectors_Inr:
  assumes "index_query E (index w) qv k flt ns im iv = Inr ms"
  shows "\<exists>rs. query_vectors E qv k flt ns im iv w = (Inr rs, log_call (IndexQuery qv k flt ns im iv) w)
              \<and> map res_score rs = map sv_score ms
              \<and> (rs = [] \<longleftrightarrow> ms = [])"
  using assms by (simp add: query_vectors_def index_log_call Let_def comp_def)

lemma query_vectors_Inl:
  assumes "index_query E (index w) qv k flt ns im iv = Inl e"
  shows "query_vectors E qv k flt ns im iv w = (Inl e, log_call (IndexQuery qv k flt ns im iv) w)"
  using assms by (simp add: query_vectors_def index_log_call Let_def)

lemma chunk_score_context_chunk: "map chunk_score (map context_chunk rs) = map res_score rs"
  by (simp add: context_chunk_def comp_def Let_def)

text \<open>
  C7. Empty-result path: when the query text passes validation, the embedding call
  succeeds and the index answers the query with no match, the endpoint returns the
  canned answer, the sentence \<^verbatim>\<open>I couldn't find any relevant information in your
  documents to answer this question.\<close>, with score \<^verbatim>\<open>0.0\<close> as a successful response
  (the apostrophe is the character \<open>0x27\<close>). The calls it has made are
  the embedding of the query and the index query, in that order, and no other: the
  language model is not called.
\<close>

theorem no_matches_canned_answer:
  assumes "\<not> whitespace_only (query request)"
    and "encode_one E (query request) = Inr qv"
    and "index_query E (index w) qv (topK request) (Some [(''user_id'', MStr (userId request))])
           (retrieve_rag_data_namespace (userId request) (email request)) True False = Inr []"
  shows "retrieve_rag_data E request w =
           (Inr \<lparr>answer = ''I couldn'' @ CHR 0x27 #
                       ''t find any relevant information in your documents to answer this question.'',
                 score = float_zero E\<rparr>,
            w\<lparr>calls := calls w @
                 [EncodeOne (query request),
                  IndexQuery qv (topK request) (Some [(''user_id'', MStr (userId request))])
                    (retrieve_rag_data_namespace (userId request) (email request)) True False]\<rparr>)"
proof -
  let ?w1 = "log_call (EncodeOne (query request)) w"
  let ?flt = "Some [(''user_id'', MStr (userId request))]"
  let ?ns = "retrieve_rag_data_namespace (userId request) (email request)"
  have nb: "query request \<noteq> []" "py_strip (query request) \<noteq> []"
    using strip_not_whitespace_only[OF assms(1)] by simp_all
  have "index_query E (index ?w1) qv (topK request) ?flt ?ns True False = Inr []"
    using assms(3) by (simp add: index_log_call)
  from query_vectors_Inr[OF this]
  have q: "query_vectors E qv (topK request) ?flt ?ns True False ?w1
             = (Inr [], log_call (IndexQuery qv (topK request) ?flt ?ns True False) ?w1)"
    by auto
  show ?thesis
    by (simp add: retrieve_rag_data_def nb embed_text_while_searching_def assms(2) q
          no_information_answer_def)
       (simp add: log_call_def)
qed

theorem no_matches_canned_answer_witness:
  "\<not> whitespace_only ''hello''
   \<and> encode_one (demo_env 1000) ''hello'' = Inr [5]
   \<and> index_query (demo_env 1000) (index empty_world) [5] 10 (Some [(''user_id'', MStr ''u1'')])
         (retrieve_rag_data_namespace ''u1'' ''d1'') True False = Inr []
   \<and> retrieve_rag_data (demo_env 1000)
         \<lparr>userId = ''u1'', email = ''d1'', query = ''hello'', topK = 10\<rparr> empty_world
       = (Inr \<lparr>answer = ''I couldn'' @ CHR 0x27 #
                       ''t find any relevant information in your documents to answer this question.'',
               score = 0\<rparr>,
          \<lparr>calls = [EncodeOne ''hello'',
                     IndexQuery [5] 10 (Some [(''user_id'', MStr ''u1'')]) ''user_u1_d1'' True False],
           index = []\<rparr>)"
proof -
  let ?r = "\<lparr>userId = ''u1'', email = ''d1'', query = ''hello'', topK = 10\<rparr>"
  have a: "\<not> whitespace_only (query ?r)"
    by (simp add: whitespace_only_def py_isspace_def)
  have b: "encode_one (demo_env 1000) (query ?r) = Inr [5]"
    by (simp add: demo_env_def)
  have c: "index_query (demo_env 1000) (index empty_world) [5] (topK ?r)
             (Some [(''user_id'', MStr (userId ?r))])
             (retrieve_rag_data_namespace (userId ?r) (email ?r)) True False = Inr []"
    by (simp add: demo_env_def empty_world_def pinecone_query_def)
  show ?thesis
    using a b c no_matches_canned_answer[OF a b c]
    by (simp add: demo_env_def empty_world_def retrieve_rag_data_namespace_def)
qed

text \<open>
  C6. Whenever the query endpoint returns a response and the index gave a non-empty
  list of matches, the score of the response is the mean of the matches' scores
  rounded to 4 decimals: \<^verbatim>\<open>round(sum(scores) / len(scores), 4)\<close> in the float arithmetic
  of the deployment. The witness runs the endpoint on matches with scores 0.9, 0.7
  and 0.5 in binary64 arithmetic: the score is the float \<^verbatim>\<open>0.7\<close>.
\<close>

theorem aggregate_score_is_rounded_mean:
  assumes "retrieve_rag_data E request w = (Inr resp, w')"
    and "encode_one E (query request) = Inr qv"
    and "index_query E (index w) qv (topK request) (Some [(''user_id'', MStr (userId request))])
           (retrieve_rag_data_namespace (userId request) (email request)) True False = Inr matches"
    and "matches \<noteq> []"
  shows "score resp = aggregate_score E (map sv_score matches)"
proof -
  let ?w1 = "log_call (EncodeOne (query request)) w"
  let ?flt = "Some [(''user_id'', MStr (userId request))]"
  let ?ns = "retrieve_rag_data_namespace (userId request) (email request)"
  have nb: "\<not> (query request = [] \<or> length (py_strip (query request)) = 0)"
    using assms(1) by (auto simp add: retrieve_rag_data_def)
  have "index_query E (index ?w1) qv (topK request) ?flt ?ns True False = Inr matches"
    using assms(3) by (simp add: index_log_call)
  from query_vectors_Inr[OF this] obtain rs where
    q: "query_vectors E qv (topK request) ?flt ?ns True False ?w1
          = (Inr rs, log_call (IndexQuery qv (topK request) ?flt ?ns True False) ?w1)"
    and sc: "map res_score rs = map sv_score matches" and ne: "rs \<noteq> []"
    using assms(4) by auto
  have len: "length rs = length matches"
    using sc by (metis length_map)
  have cs: "map chunk_score (map context_chunk rs) = map sv_score matches"
    using sc by (simp only: chunk_score_context_chunk)
  from assms(1) ne show ?thesis
    unfolding retrieve_rag_data_def
    by (simp only: nb if_False embed_text_while_searching_def assms(2) q Let_def
          sum.case prod.case cs length_map len)
       (auto simp add: aggregate_score_def split: prod.splits sum.splits option.splits if_splits)
qed

lemma b64_07: "binary64 (7 / 10) = 3152519739159347 / 4503599627370496"
  by code_simp

theorem aggregate_score_is_rounded_mean_witness:
  "fst (retrieve_rag_data (scores_env [binary64 (9 / 10), binary64 (7 / 10), 1 / 2])
          \<lparr>userId = ''u1'', email = ''d1'', query = ''hello'', topK = 5\<rparr> empty_world)
     = Inr \<lparr>answer = ''ok'', score = binary64 (7 / 10)\<rparr>
   \<and> encode_one (scores_env [binary64 (9 / 10), binary64 (7 / 10), 1 / 2]) ''hello'' = Inr [5]
   \<and> index_query (scores_env [binary64 (9 / 10), binary64 (7 / 10), 1 / 2]) [] [5] 5
         (Some [(''user_id'', MStr ''u1'')]) ''user_u1_d1'' True False
       = Inr (map scored_match [binary64 (9 / 10), binary64 (7 / 10), 1 / 2])
   \<and> aggregate_score (scores_env [binary64 (9 / 10), binary64 (7 / 10), 1 / 2])
         [binary64 (9 / 10), binary64 (7 / 10), 1 / 2] = binary64 (7 / 10)
   \<and> binary64 (7 / 10) = 3152519739159347 / 4503599627370496"
proof -
  let ?S = "[binary64 (9 / 10), binary64 (7 / 10), 1 / 2]"
  let ?E = "scores_env ?S"
  let ?r = "\<lparr>userId = ''u1'', email = ''d1'', query = ''hello'', topK = 5\<rparr>"
  obtain resp w' where run: "retrieve_rag_data ?E ?r empty_world = (Inr resp, w')"
    and ans: "answer resp = ''ok''"
    by (simp add: retrieve_rag_data_def scores_env_def demo_env_def empty_world_def
          py_strip_def py_isspace_def embed_text_while_searching_def query_vectors_def
          generate_response_def log_call_def scored_match_def Let_def)
  have enc: "encode_one ?E (query ?r) = Inr [5]"
    by (simp add: scores_env_def demo_env_def)
  have qry: "index_query ?E (index empty_world) [5] (topK ?r)
               (Some [(''user_id'', MStr (userId ?r))])
               (retrieve_rag_data_namespace (userId ?r) (email ?r)) True False
             = Inr (map scored_match ?S)"
    by (simp add: scores_env_def demo_env_def)
  have ne: "map scored_match ?S \<noteq> []" by simp
  have sc: "map sv_score (map scored_match ?S) = ?S"
    by (simp add: scored_match_def)
  have agg: "aggregate_score ?E ?S = binary64 (7 / 10)"
    by code_simp
  have "score resp = binary64 (7 / 10)"
    using aggregate_score_is_rounded_mean[OF run enc qry ne] unfolding sc agg .
  then have "resp = \<lparr>answer = ''ok'', score = binary64 (7 / 10)\<rparr>"
    using ans by (cases resp) simp
  then have f1: "fst (retrieve_rag_data ?E ?r empty_world)
                   = Inr \<lparr>answer = ''ok'', score = binary64 (7 / 10)\<rparr>"
    using run by (simp only: fst_conv)
  have f2: "encode_one ?E ''hello'' = Inr [5]"
    by (simp add: scores_env_def demo_env_def)
  have f3: "index_query ?E [] [5] 5 (Some [(''user_id'', MStr ''u1'')]) ''user_u1_d1'' True False
              = Inr (map scored_match ?S)"
    by (simp add: scores_env_def demo_env_def)
  show ?thesis
    by (rule conjI[OF f1 conjI[OF f2 conjI[OF f3 conjI[OF agg b64_07]]]])
qed

section \<open>Properties: batched upsert\<close>

text \<open>
  The slices \<^verbatim>\<open>vectors[i:i + n]\<close> for \<open>i\<close> in \<^verbatim>\<open>range(0, len(vectors), n)\<close> are the
  consecutive batches of the list.
\<close>

lemma batches_Nil: "batches n [] = []"
  by (simp add: batches.simps)

lemma batches_step:
  "0 < n \<Longrightarrow> xs \<noteq> [] \<Longrightarrow> batches n xs = take n xs # batches n (drop n xs)"
  by (simp add: batches.simps[of n xs])

lemma ceil_div_step:
  fixes n len :: nat
  assumes "0 < n" "0 < len"
  shows "(len + n - 1) div n = Suc ((len - n + n - 1) div n)"
proof (cases "n \<le> len")
  case True
  then have "len + n - 1 = (len - n + n - 1) + n" using assms by simp
  then show ?thesis using assms by (metis div_add_self2 less_numeral_extra(3) Suc_eq_plus1)
next
  case False
  then have a: "len - n = 0" by simp
  have "(len + n - 1) div n = 1"
  proof -
    have "len + n - 1 = (len - 1) + n" using assms by simp
    moreover have "(len - 1) div n = 0" using False assms by simp
    ultimately show ?thesis using assms by (metis div_add_self2 less_numeral_extra(3) add_0)
  qed
  moreover have "(n - 1) div n = 0" using assms by simp
  ultimately show ?thesis using a by simp
qed

lemma slices_batches:
  "0 < n \<Longrightarrow> map (\<lambda>k. take n (drop (k * n) xs)) [0..<(length xs + n - 1) div n] = batches n xs"
proof (induction n xs rule: batches.induct)
  case (1 n xs)
  show ?case
  proof (cases "xs = []")
    case True
    then show ?thesis using 1(2) by (simp add: batches_Nil)
  next
    case False
    let ?m = "(length (drop n xs) + n - 1) div n"
    have m: "(length xs + n - 1) div n = Suc ?m"
      using ceil_div_step[of n "length xs"] 1(2) False by simp
    have ih: "map (\<lambda>k. take n (drop (k * n) (drop n xs))) [0..<?m] = batches n (drop n xs)"
      using 1 False by simp
    have "map (\<lambda>k. take n (drop (k * n) xs)) [0..<Suc ?m]
          = take n xs # map (\<lambda>k. take n (drop (Suc k * n) xs)) [0..<?m]"
      by (simp add: upt_conv_Cons map_Suc_upt[symmetric] del: upt_Suc)
    also have "map (\<lambda>k. take n (drop (Suc k * n) xs)) [0..<?m]
          = map (\<lambda>k. take n (drop (k * n) (drop n xs))) [0..<?m]"
      by (simp add: add.commute)
    finally show ?thesis
      using ih m False 1(2) by (simp add: batches_step)
  qed
qed

lemma range_slices_batches:
  "map (\<lambda>i. take 100 (drop i xs)) (py_range0 (length xs) 100) = batches 100 xs"
  using slices_batches[of 100 xs] by (simp add: py_range0_def comp_def)

lemma concat_batches: "0 < n \<Longrightarrow> concat (batches n xs) = xs"
proof (induction n xs rule: batches.induct)
  case (1 n xs)
  then show ?case by (cases "xs = []") (simp_all add: batches_Nil batches_step)
qed

lemma batches_length: "0 < n \<Longrightarrow> b \<in> set (batches n xs) \<Longrightarrow> 0 < length b \<and> length b \<le> n"
proof (induction n xs rule: batches.induct)
  case (1 n xs)
  then show ?case by (cases "xs = []") (auto simp add: batches_Nil batches_step)
qed

lemma batches_full: "0 < n \<Longrightarrow> b \<in> set (butlast (batches n xs)) \<Longrightarrow> length b = n"
proof (induction n xs rule: batches.induct)
  case (1 n xs)
  show ?case
  proof (cases "xs = []")
    case True
    then show ?thesis using 1 by (simp add: batches_Nil)
  next
    case False
    show ?thesis
    proof (cases "drop n xs = []")
      case True
      then have "batches n xs = [take n xs]" using False 1(2) by (simp add: batches_Nil batches_step)
      then show ?thesis using 1(3) by simp
    next
      case nonempty: False
      then have ne: "batches n (drop n xs) \<noteq> []" using 1(2) by (simp add: batches_step)
      have "batches n xs = take n xs # batches n (drop n xs)" using False 1(2) by (simp add: batches_step)
      then have "b = take n xs \<or> b \<in> set (butlast (batches n (drop n xs)))" using 1(3) ne by auto
      then show ?thesis using 1(1)[OF _ 1(2)] False 1(2) nonempty by auto
    qed
  qed
qed

text \<open>The loop of \<^verbatim>\<open>upsert_vectors\<close> runs the slices as \<open>run_batches\<close> does.\<close>

lemma upsert_loop_run:
  "upsert_loop E vs ns n is t w =
     (case run_batches E ns (map (\<lambda>i. take n (drop i vs)) is) (index w) of
        (r, k, s) \<Rightarrow>
          ((case r of Some e \<Rightarrow> Inl e
                    | None \<Rightarrow> Inr (t + length (concat (map (\<lambda>i. take n (drop i vs)) is)))),
           w\<lparr>calls := calls w @ map (\<lambda>b. IndexUpsert b ns) (take k (map (\<lambda>i. take n (drop i vs)) is)),
             index := s\<rparr>))"
proof (induction "is" arbitrary: t w)
  case Nil
  then show ?case by simp
next
  case (Cons i "is")
  show ?case
  proof (cases "index_upsert E (index w) (take n (drop i vs)) ns")
    case (Pair r s)
    show ?thesis
    proof (cases r)
      case None
      then show ?thesis
        using Pair Cons[of "t + length (take n (drop i vs))"
                          "(log_call (IndexUpsert (take n (drop i vs)) ns) w)\<lparr>index := s\<rparr>"]
        by (simp add: Let_def index_log_call log_call_def split: prod.splits option.splits)
    next
      case (Some e)
      then show ?thesis
        using Pair by (simp add: Let_def index_log_call log_call_def)
    qed
  qed
qed

lemma length_demo_vectors: "length (demo_vectors n) = n"
  by (simp add: demo_vectors_def)

lemma batches_unfold:
  "batches n xs = (if n = 0 \<or> length xs = 0 then [] else take n xs # batches n (drop n xs))"
  by (simp add: batches.simps[of n xs])

text \<open>
  C8. Batched, non-transactional upsert with the batch size 100 that
  \<^verbatim>\<open>store_documents\<close> passes (and the default): the records are cut into consecutive
  batches, in order, every batch non-empty and of at most 100 records, every batch
  but the last of exactly 100, their concatenation the records themselves. The
  batches go to the index one by one; the first failure is returned as the error,
  the calls made are the batches up to and including the failing one and no later
  one, and the index is left as the successful batches and the failing call made it:
  nothing is rolled back. With no failure all batches are sent and the count is the
  number of records. In the witness an index with room for 120 records takes 250
  records: the first batch is stored, the second fails, the third is never sent, and
  the 100 records of the first batch stay in the index.
\<close>

theorem upsert_vectors_batched:
  "upsert_vectors E vectors ns 100 w =
     (case run_batches E ns (batches 100 vectors) (index w) of
        (r, k, s) \<Rightarrow>
          ((case r of
              Some e \<Rightarrow> Inl e
            | None \<Rightarrow> Inr \<lparr>upserted_count = length vectors,
                            upsert_namespace = (if ns = [] then ''default'' else ns)\<rparr>),
           w\<lparr>calls := calls w @ map (\<lambda>b. IndexUpsert b ns) (take k (batches 100 vectors)),
             index := s\<rparr>))
   \<and> concat (batches 100 vectors) = vectors
   \<and> (\<forall>b\<in>set (batches 100 vectors). 0 < length b \<and> length b \<le> 100)
   \<and> (\<forall>b\<in>set (butlast (batches 100 vectors)). length b = 100)"
proof -
  have c: "concat (batches 100 vectors) = vectors"
    by (simp add: concat_batches)
  have "upsert_vectors E vectors ns 100 w =
     (case run_batches E ns (batches 100 vectors) (index w) of
        (r, k, s) \<Rightarrow>
          ((case r of
              Some e \<Rightarrow> Inl e
            | None \<Rightarrow> Inr \<lparr>upserted_count = length vectors,
                            upsert_namespace = (if ns = [] then ''default'' else ns)\<rparr>),
           w\<lparr>calls := calls w @ map (\<lambda>b. IndexUpsert b ns) (take k (batches 100 vectors)),
             index := s\<rparr>))"
    unfolding upsert_vectors_def upsert_loop_run
    by (simp add: range_slices_batches c split: prod.splits option.splits)
  then show ?thesis
    using c batches_length[of 100 _ vectors] batches_full[of 100 _ vectors] by simp
qed

theorem upsert_vectors_batched_witness:
  "upsert_vectors (demo_env 120) (demo_vectors 250) ''ns'' 100 empty_world
     = (Inl ''index full'',
        \<lparr>calls = [IndexUpsert (take 100 (demo_vectors 250)) ''ns'',
                   IndexUpsert (take 100 (drop 100 (demo_vectors 250))) ''ns''],
         index = map (Pair ''ns'') (take 100 (demo_vectors 250))\<rparr>)
   \<and> batches 100 (demo_vectors 250)
       = [take 100 (demo_vectors 250), take 100 (drop 100 (demo_vectors 250)),
          take 100 (drop 200 (demo_vectors 250))]
   \<and> length (map (Pair ''ns'') (take 100 (demo_vectors 250))) = 100"
proof -
  have b: "batches 100 (demo_vectors 250)
             = [take 100 (demo_vectors 250), take 100 (drop 100 (demo_vectors 250)),
                take 100 (drop 200 (demo_vectors 250))]"
    by (simp add: batches_unfold length_demo_vectors)
  have r: "run_batches (demo_env 120) ''ns'' (batches 100 (demo_vectors 250)) []
             = (Some ''index full'', 2, map (Pair ''ns'') (take 100 (demo_vectors 250)))"
    unfolding b
    by (simp add: demo_env_def capped_upsert_def pinecone_upsert_def length_demo_vectors)
  have "upsert_vectors (demo_env 120) (demo_vectors 250) ''ns'' 100 empty_world
     = (Inl ''index full'',
        \<lparr>calls = [IndexUpsert (take 100 (demo_vectors 250)) ''ns'',
                   IndexUpsert (take 100 (drop 100 (demo_vectors 250))) ''ns''],
         index = map (Pair ''ns'') (take 100 (demo_vectors 250))\<rparr>)"
    using upsert_vectors_batched[of "demo_env 120" "demo_vectors 250" "''ns''" empty_world,
            THEN conjunct1]
    by (simp add: empty_world_def r) (simp add: b)
  then show ?thesis
    using b by (simp add: length_demo_vectors)
qed

section \<open>Properties: the calls the endpoints make\<close>

lemma new_calls_append: "calls w' = calls w @ cs \<Longrightarrow> new_calls w w' = cs"
  by (simp add: new_calls_def)

lemma upsert_loop_calls:
  "\<exists>bs. calls (snd (upsert_loop E vs ns n is t w)) = calls w @ map (\<lambda>b. IndexUpsert b ns) bs
        \<and> (\<forall>b\<in>set bs. set b \<subseteq> set vs)"
proof -
  obtain r k s where rk: "run_batches E ns (map (\<lambda>i. take n (drop i vs)) is) (index w) = (r, k, s)"
    by (cases "run_batches E ns (map (\<lambda>i. take n (drop i vs)) is) (index w)") auto
  let ?bs = "take k (map (\<lambda>i. take n (drop i vs)) is)"
  have "calls (snd (upsert_loop E vs ns n is t w)) = calls w @ map (\<lambda>b. IndexUpsert b ns) ?bs"
    by (simp add: upsert_loop_run rk)
  moreover have "\<forall>b\<in>set ?bs. set b \<subseteq> set vs"
  proof
    fix b assume "b \<in> set ?bs"
    then have "b \<in> set (map (\<lambda>i. take n (drop i vs)) is)" by (rule in_set_takeD)
    then obtain i where "b = take n (drop i vs)" by auto
    then show "set b \<subseteq> set vs"
      using set_take_subset set_drop_subset by (metis subset_trans)
  qed
  ultimately show ?thesis by blast
qed

lemma upsert_vectors_calls:
  "\<exists>bs. calls (snd (upsert_vectors E vs ns bsz w)) = calls w @ map (\<lambda>b. IndexUpsert b ns) bs
        \<and> (\<forall>b\<in>set bs. set b \<subseteq> set vs)"
proof (cases "bsz = 0")
  case True
  then have "calls (snd (upsert_vectors E vs ns bsz w)) = calls w @ map (\<lambda>b. IndexUpsert b ns) []"
    by (simp add: upsert_vectors_def)
  then show ?thesis by (metis empty_iff list.set(1))
next
  case False
  obtain r w' where u: "upsert_loop E vs ns (nat bsz) (py_range0 (length vs) bsz) 0 w = (r, w')"
    by (cases "upsert_loop E vs ns (nat bsz) (py_range0 (length vs) bsz) 0 w") auto
  have "snd (upsert_vectors E vs ns bsz w) = w'"
    using False u by (simp add: upsert_vectors_def split: sum.splits)
  then show ?thesis
    using upsert_loop_calls[of E vs ns "nat bsz" "py_range0 (length vs) bsz" 0 w] u by simp
qed

lemma store_documents_calls:
  "\<exists>bs. calls (snd (store_documents E nodes embs u e t w))
           = calls w @ map (\<lambda>b. IndexUpsert b (store_documents_namespace u e)) bs
        \<and> (\<forall>b\<in>set bs. set b \<subseteq> store_documents_vector u e t ` set (zip nodes embs))"
proof -
  let ?vs = "map (store_documents_vector u e t) (zip nodes embs)"
  let ?ns = "store_documents_namespace u e"
  have "snd (store_documents E nodes embs u e t w) = snd (upsert_vectors E ?vs ?ns 100 w)"
    by (simp add: store_documents_def Let_def split: prod.splits sum.splits)
  then show ?thesis
    using upsert_vectors_calls[of E ?vs ?ns 100 w] by simp
qed


text \<open>
  The calls of \<^verbatim>\<open>store_rag_data\<close>: none on blank content; otherwise the splitter first,
  and every upsert that follows sends records built by \<^verbatim>\<open>store_documents\<close> from the
  nodes of this request, to the namespace of this request.
\<close>

lemma store_rag_data_calls:
  "(whitespace_only (content req) \<and> new_calls w (snd (store_rag_data E req w)) = [])
   \<or> (\<not> whitespace_only (content req) \<and>
       (\<exists>rest. new_calls w (snd (store_rag_data E req w)) = SplitText (content req) # rest
          \<and> (\<forall>batch ns. IndexUpsert batch ns \<in> set rest \<longrightarrow>
                (\<exists>chunks nodes embs.
                    split_text E (content req) = Inr chunks
                  \<and> get_nodes_from_documents E
                       (map (chunk_document req (now_isoformat E) (length chunks))
                          (enumerate 0 chunks)) = Inr nodes
                  \<and> ns = store_documents_namespace (userId req) (email req)
                  \<and> set batch \<subseteq> store_documents_vector (userId req) (email req) (title req)
                                   ` set (zip nodes embs)))))"
proof (cases "whitespace_only (content req)")
  case True
  then show ?thesis
    by (simp add: store_rag_data_def strip_whitespace_only new_calls_def)
next
  case False
  note nb = strip_not_whitespace_only[OF False]
  let ?w1 = "log_call (SplitText (content req)) w"
  show ?thesis
  proof (cases "split_text E (content req)")
    case (Inl e)
    then have "calls (snd (store_rag_data E req w)) = calls w @ [SplitText (content req)]"
      using nb by (simp add: store_rag_data_def Let_def calls_log_call)
    then show ?thesis using False by (simp add: new_calls_def)
  next
    case chunks: (Inr chunks)
    let ?docs = "map (chunk_document req (now_isoformat E) (length chunks)) (enumerate 0 chunks)"
    let ?w2 = "log_call (GetNodes ?docs) ?w1"
    show ?thesis
    proof (cases "get_nodes_from_documents E ?docs")
      case (Inl e)
      then have "calls (snd (store_rag_data E req w))
                   = calls w @ [SplitText (content req), GetNodes ?docs]"
        using nb chunks by (simp add: store_rag_data_def Let_def calls_log_call)
      then show ?thesis using False by (simp add: new_calls_def)
    next
      case nodes: (Inr nodes)
      let ?w3 = "log_call (EncodeMany (map get_content nodes)) ?w2"
      show ?thesis
      proof (cases "encode_many E (map get_content nodes)")
        case (Inl e)
        then have "calls (snd (store_rag_data E req w))
                     = calls w @ [SplitText (content req), GetNodes ?docs,
                                  EncodeMany (map get_content nodes)]"
          using nb chunks nodes
          by (simp add: store_rag_data_def Let_def calls_log_call embed_texts_while_storing_def)
        then show ?thesis using False by (simp add: new_calls_def)
      next
        case embs: (Inr embs)
        let ?sd = "store_documents E nodes embs (userId req) (email req) (title req) ?w3"
        have snd_eq: "snd (store_rag_data E req w) = snd ?sd"
          using nb chunks nodes embs
          by (simp add: store_rag_data_def Let_def embed_texts_while_storing_def
                split: prod.splits sum.splits)
        obtain bs where
          c: "calls (snd ?sd) = calls ?w3
                @ map (\<lambda>b. IndexUpsert b (store_documents_namespace (userId req) (email req))) bs"
          and sub: "\<forall>b\<in>set bs. set b \<subseteq> store_documents_vector (userId req) (email req) (title req)
                                          ` set (zip nodes embs)"
          using store_documents_calls[of E nodes embs "userId req" "email req" "title req" ?w3]
          by blast
        let ?rest = "[GetNodes ?docs, EncodeMany (map get_content nodes)]
                @ map (\<lambda>b. IndexUpsert b (store_documents_namespace (userId req) (email req))) bs"
        have "new_calls w (snd (store_rag_data E req w)) = SplitText (content req) # ?rest"
          using c unfolding snd_eq by (simp add: new_calls_def calls_log_call)
        moreover have "\<forall>batch ns. IndexUpsert batch ns \<in> set ?rest \<longrightarrow>
                (\<exists>chunks nodes embs.
                    split_text E (content req) = Inr chunks
                  \<and> get_nodes_from_documents E
                       (map (chunk_document req (now_isoformat E) (length chunks))
                          (enumerate 0 chunks)) = Inr nodes
                  \<and> ns = store_documents_namespace (userId req) (email req)
                  \<and> set batch \<subseteq> store_documents_vector (userId req) (email req) (title req)
                                   ` set (zip nodes embs))"
          using chunks nodes sub by auto
        ultimately show ?thesis using False by blast
      qed
    qed
  qed
qed


text \<open>
  The calls of \<^verbatim>\<open>retrieve_rag_data\<close>: none on a blank query; otherwise the embedding of
  the query first, and every index query that follows carries the filter on the
  requester's \<^verbatim>\<open>user_id\<close> and the requester's namespace.
\<close>

lemma retrieve_rag_data_calls:
  "(whitespace_only (query req) \<and> new_calls w (snd (retrieve_rag_data E req w)) = [])
   \<or> (\<not> whitespace_only (query req) \<and>
       (\<exists>rest. new_calls w (snd (retrieve_rag_data E req w)) = EncodeOne (query req) # rest
          \<and> (\<forall>qv k flt ns im iv. IndexQuery qv k flt ns im iv \<in> set rest \<longrightarrow>
                flt = Some [(''user_id'', MStr (userId req))]
              \<and> ns = retrieve_rag_data_namespace (userId req) (email req)
              \<and> k = topK req \<and> im \<and> \<not> iv)))"
proof (cases "whitespace_only (query req)")
  case True
  then show ?thesis
    by (simp add: retrieve_rag_data_def strip_whitespace_only new_calls_def)
next
  case False
  note nb = strip_not_whitespace_only[OF False]
  let ?w1 = "log_call (EncodeOne (query req)) w"
  let ?flt = "Some [(''user_id'', MStr (userId req))]"
  let ?ns = "retrieve_rag_data_namespace (userId req) (email req)"
  show ?thesis
  proof (cases "encode_one E (query req)")
    case (Inl e)
    then have "calls (snd (retrieve_rag_data E req w)) = calls w @ [EncodeOne (query req)]"
      using nb by (simp add: retrieve_rag_data_def embed_text_while_searching_def calls_log_call)
    then show ?thesis using False by (simp add: new_calls_def)
  next
    case qv: (Inr qv)
    let ?q = "IndexQuery qv (topK req) ?flt ?ns True False"
    let ?w2 = "log_call ?q ?w1"
    show ?thesis
    proof (cases "index_query E (index ?w1) qv (topK req) ?flt ?ns True False")
      case (Inl e)
      from query_vectors_Inl[OF this]
      have "calls (snd (retrieve_rag_data E req w)) = calls w @ [EncodeOne (query req), ?q]"
        using nb qv
        by (simp add: retrieve_rag_data_def embed_text_while_searching_def calls_log_call)
      then show ?thesis using False by (simp add: new_calls_def)
    next
      case ms: (Inr ms)
      from query_vectors_Inr[OF this] obtain rs where
        q: "query_vectors E qv (topK req) ?flt ?ns True False ?w1 = (Inr rs, ?w2)"
        by blast
      have "calls (snd (retrieve_rag_data E req w)) = calls w @ [EncodeOne (query req), ?q]
            \<or> calls (snd (retrieve_rag_data E req w))
                = calls w @ [EncodeOne (query req), ?q,
                             GroqCreate (query req) (map context_chunk rs)]"
        using nb qv q
        by (simp add: retrieve_rag_data_def embed_text_while_searching_def calls_log_call
              generate_response_def Let_def split: sum.splits option.splits)
      then show ?thesis using False by (auto simp add: new_calls_def)
    qed
  qed
qed


lemma store_never_400:
  "\<not> whitespace_only (content req) \<Longrightarrow> fst (store_rag_data E req w) \<noteq> Inl (HTTPException 400 d)"
  using strip_not_whitespace_only[of "content req"]
  by (simp add: store_rag_data_def Let_def embed_texts_while_storing_def
        split: sum.splits prod.splits)

lemma retrieve_never_400:
  "\<not> whitespace_only (query req) \<Longrightarrow> fst (retrieve_rag_data E req w) \<noteq> Inl (HTTPException 400 d)"
  using strip_not_whitespace_only[of "query req"]
  by (simp add: retrieve_rag_data_def Let_def embed_text_while_searching_def
        split: sum.splits prod.splits option.splits)

text \<open>
  C4 (as amended). The code has no check of the tenant id or the document id: whenever
  the content (for store) or the query text (for query) is not empty or
  whitespace-only, the endpoint goes on to its first external call (the splitter,
  resp. the embedding of the query) and never raises the 400 client error, whatever
  the ids are, the empty string included. Only empty or whitespace-only content and
  query are rejected before any external call (C5).
\<close>

theorem ids_are_not_validated:
  "(\<not> whitespace_only (content sreq) \<longrightarrow>
      (\<exists>rest. new_calls w (snd (store_rag_data E sreq w)) = SplitText (content sreq) # rest)
      \<and> (\<forall>d. fst (store_rag_data E sreq w) \<noteq> Inl (HTTPException 400 d)))
   \<and> (\<not> whitespace_only (query rreq) \<longrightarrow>
      (\<exists>rest. new_calls w (snd (retrieve_rag_data E rreq w)) = EncodeOne (query rreq) # rest)
      \<and> (\<forall>d. fst (retrieve_rag_data E rreq w) \<noteq> Inl (HTTPException 400 d)))"
  using store_rag_data_calls[of sreq w E] retrieve_rag_data_calls[of rreq w E]
        store_never_400[of sreq E w] retrieve_never_400[of rreq E w]
  by blast

lemma vector_user_id:
  "map_of (vec_metadata (store_documents_vector u e t ne)) ''user_id'' = Some (MStr u)"
  by (simp add: store_documents_vector_def Let_def update_conv')

lemma vector_chunk_fields:
  "node_metadata (fst ne) = Some md \<Longrightarrow>
   map_of (vec_metadata (store_documents_vector u e t ne)) ''chunk_index'' = map_of md ''chunk_index''
   \<and> map_of (vec_metadata (store_documents_vector u e t ne)) ''total_chunks'' = map_of md ''total_chunks''"
  by (simp add: store_documents_vector_def Let_def update_conv')

lemma chunk_document_fields:
  "map_of (extra_info (chunk_document req ts n ic)) ''chunk_index'' = Some (MInt (int (fst ic)))
   \<and> map_of (extra_info (chunk_document req ts n ic)) ''total_chunks'' = Some (MInt (int n))"
  by (simp add: chunk_document_def Let_def)

text \<open>
  C9. Chunk metadata invariant: every record that one call of \<^verbatim>\<open>store_rag_data\<close> sends
  to the index carries the request's tenant id as \<^verbatim>\<open>user_id\<close> and goes to the namespace
  derived from that tenant id and the document id. When the node parser hands each
  node the metadata of a document it was given, the record's \<^verbatim>\<open>chunk_index\<close> is below
  its \<^verbatim>\<open>total_chunks\<close> (and not negative), and \<^verbatim>\<open>total_chunks\<close> is the number of chunks
  of the request's content, the same for all records of the call.
\<close>

theorem chunk_metadata_invariant:
  assumes "IndexUpsert batch ns \<in> set (new_calls w (snd (store_rag_data E request w)))"
    and "v \<in> set batch"
  shows "map_of (vec_metadata v) ''user_id'' = Some (MStr (userId request))
       \<and> ns = store_documents_namespace (userId request) (email request)
       \<and> (nodes_inherit_metadata E \<longrightarrow>
            (\<exists>chunks i. split_text E (content request) = Inr chunks
               \<and> map_of (vec_metadata v) ''chunk_index'' = Some (MInt (int i))
               \<and> i < length chunks
               \<and> map_of (vec_metadata v) ''total_chunks'' = Some (MInt (int (length chunks)))))"
proof -
  from store_rag_data_calls[of request w E] assms(1)
  obtain rest where
    r: "new_calls w (snd (store_rag_data E request w)) = SplitText (content request) # rest"
    and all: "\<forall>batch ns. IndexUpsert batch ns \<in> set rest \<longrightarrow>
                (\<exists>chunks nodes embs.
                    split_text E (content request) = Inr chunks
                  \<and> get_nodes_from_documents E
                       (map (chunk_document request (now_isoformat E) (length chunks))
                          (enumerate 0 chunks)) = Inr nodes
                  \<and> ns = store_documents_namespace (userId request) (email request)
                  \<and> set batch \<subseteq> store_documents_vector (userId request) (email request)
                                   (title request) ` set (zip nodes embs))"
    by (elim disjE conjE exE) simp_all
  have "IndexUpsert batch ns \<in> set rest"
    using assms(1) r by simp
  with all obtain chunks nodes embs where
    sp: "split_text E (content request) = Inr chunks"
    and gn: "get_nodes_from_documents E
               (map (chunk_document request (now_isoformat E) (length chunks))
                  (enumerate 0 chunks)) = Inr nodes"
    and ns: "ns = store_documents_namespace (userId request) (email request)"
    and sub: "set batch \<subseteq> store_documents_vector (userId request) (email request) (title request)
                             ` set (zip nodes embs)"
    by blast
  from sub assms(2) obtain ne where
    ne: "ne \<in> set (zip nodes embs)"
    and v: "v = store_documents_vector (userId request) (email request) (title request) ne"
    by auto
  have uid: "map_of (vec_metadata v) ''user_id'' = Some (MStr (userId request))"
    unfolding v by (rule vector_user_id)
  have chunk: "\<exists>chunks i. split_text E (content request) = Inr chunks
               \<and> map_of (vec_metadata v) ''chunk_index'' = Some (MInt (int i))
               \<and> i < length chunks
               \<and> map_of (vec_metadata v) ''total_chunks'' = Some (MInt (int (length chunks)))"
    if inh: "nodes_inherit_metadata E"
  proof -
    have "fst ne \<in> set nodes"
    proof -
      obtain a b where ab: "ne = (a, b)" by (cases ne)
      with ne have "(a, b) \<in> set (zip nodes embs)" by simp
      then have "a \<in> set nodes" by (rule set_zip_leftD)
      then show ?thesis using ab by simp
    qed
    with inh gn obtain d where
      d: "d \<in> set (map (chunk_document request (now_isoformat E) (length chunks))
                     (enumerate 0 chunks))"
      and md: "node_metadata (fst ne) = Some (extra_info d)"
      unfolding nodes_inherit_metadata_def by blast
    from d obtain ic where ic: "ic \<in> set (enumerate 0 chunks)"
      and dd: "d = chunk_document request (now_isoformat E) (length chunks) ic"
      by auto
    have lt: "fst ic < length chunks"
    proof -
      obtain a b where ab: "ic = (a, b)" by (cases ic)
      with ic have "(a, b) \<in> set (enumerate 0 chunks)" by simp
      then show ?thesis using ab by (simp add: in_set_enumerate_eq)
    qed
    show ?thesis
      using sp lt vector_chunk_fields[OF md, of "userId request" "email request" "title request"]
        chunk_document_fields[of request "now_isoformat E" "length chunks" ic]
      unfolding v dd by auto
  qed
  show ?thesis using uid ns chunk by blast
qed

section \<open>Properties: the example deployment\<close>

lemma demo_env_sel:
  "split_text (demo_env cap) s = Inr [s]"
  "get_nodes_from_documents (demo_env cap) docs = Inr (map demo_node (enumerate 0 docs))"
  "encode_one (demo_env cap) s = Inr [of_nat (length s)]"
  "encode_many (demo_env cap) ts = Inr (map (\<lambda>s. [of_nat (length s)]) ts)"
  "index_upsert (demo_env cap) = capped_upsert cap"
  "index_query (demo_env cap) = pinecone_query dot"
  "groq_create (demo_env cap) q chunks = Inr \<lparr>message_content = Some ''ok'', completion_usage = None,
                                 finish_reason = ''stop''\<rparr>"
  "now_isoformat (demo_env cap) = ''2024-01-01T00:00:00''"
  "float_zero (demo_env cap) = 0"
  by (simp_all add: demo_env_def)

lemma demo_node_sel:
  "get_content (demo_node (i, d)) = doc_text d"
  "node_id (demo_node (i, d)) = doc_text d @ replicate (Suc i) (CHR ''#'')"
  "node_metadata (demo_node (i, d)) = Some (extra_info d)"
  "doc_text (demo_document u e c) = c"
  "vec_id (demo_vector u e c) = c @ ''#''"
  by (simp_all add: demo_node_def demo_document_def demo_vector_def)

lemma demo_store:
  assumes "\<not> whitespace_only c" and "length s < cap"
  shows "store_rag_data (demo_env cap) (demo_request u e c) \<lparr>calls = cs, index = s\<rparr>
         = (Inr \<lparr>documentId = e, indexed = True\<rparr>,
            \<lparr>calls = cs @ [SplitText c, GetNodes [demo_document u e c], EncodeMany [c],
                           IndexUpsert [demo_vector u e c] (store_documents_namespace u e)],
             index = filter (\<lambda>nr. \<not> (fst nr = store_documents_namespace u e
                                       \<and> vec_id (snd nr) = c @ ''#'')) s
                     @ [(store_documents_namespace u e, demo_vector u e c)]\<rparr>)"
proof -
  note nb = strip_not_whitespace_only[OF assms(1)]
  have v: "store_documents_vector u e ''T''
             (demo_node (0, demo_document u e c), [of_nat (length c)]) = demo_vector u e c"
    by (simp add: store_documents_vector_def demo_node_def demo_document_def demo_vector_def
          demo_metadata_def Let_def)
  have up: "upsert_vectors (demo_env cap) [demo_vector u e c] ns 100 w
            = (case index_upsert (demo_env cap) (index w) [demo_vector u e c] ns of
                 (Some er, s') \<Rightarrow> (Inl er, w\<lparr>calls := calls w @ [IndexUpsert [demo_vector u e c] ns],
                                          index := s'\<rparr>)
               | (None, s') \<Rightarrow> (Inr \<lparr>upserted_count = 1,
                                       upsert_namespace = (if ns = [] then ''default'' else ns)\<rparr>,
                                 w\<lparr>calls := calls w @ [IndexUpsert [demo_vector u e c] ns],
                                   index := s'\<rparr>))" for ns w
    by (simp add: upsert_vectors_def py_range0_def Let_def log_call_def
          split: prod.splits option.splits)
  show ?thesis
    using nb assms(2)
    by (simp add: store_rag_data_def demo_request_def Let_def log_call_def
          embed_texts_while_storing_def store_documents_def up v demo_env_sel demo_node_sel
          chunk_document_def demo_document_def[symmetric] demo_metadata_def[symmetric]
          capped_upsert_def pinecone_upsert_def)
qed


section \<open>Properties: tenant isolation\<close>

text \<open>
  A match of the index comes from a record of the queried namespace that satisfies
  the filter.
\<close>

lemma pinecone_query_sound:
  assumes "pinecone_query sim s qv k flt ns im iv = Inr ms" and "m \<in> set ms"
  shows "\<exists>r. (ns, r) \<in> set s \<and> matches_filter flt (vec_metadata r)
             \<and> sv_id m = vec_id r
             \<and> sv_metadata m = (if im then vec_metadata r else [])"
proof -
  let ?c = "map snd (filter (\<lambda>nr. fst nr = ns \<and> matches_filter flt (vec_metadata (snd nr))) s)"
  let ?rk = "rev (sort_key (\<lambda>r. sim qv (vec_values r)) ?c)"
  let ?f = "\<lambda>r. \<lparr>sv_id = vec_id r, sv_score = sim qv (vec_values r),
                   sv_metadata = (if im then vec_metadata r else []),
                   sv_values = (if iv then vec_values r else [])\<rparr>"
  from assms(1) have "ms = map ?f (take (nat k) ?rk)"
    by (simp add: pinecone_query_def Let_def)
  with assms(2) obtain r where r: "r \<in> set (take (nat k) ?rk)" and m: "m = ?f r"
    by auto
  from r have "r \<in> set ?rk" by (rule in_set_takeD)
  then have "r \<in> set ?c" by simp
  then have "(ns, r) \<in> set s \<and> matches_filter flt (vec_metadata r)" by auto
  then show ?thesis using m by auto
qed

lemma matches_user_filter:
  "matches_filter (Some [(''user_id'', MStr u)]) md \<longleftrightarrow> map_of md ''user_id'' = Some (MStr u)"
  by (simp add: matches_filter_def)

lemma retrieve_query_call:
  assumes "IndexQuery qv k flt ns im iv \<in> set (new_calls w (snd (retrieve_rag_data E req w)))"
  shows "flt = Some [(''user_id'', MStr (userId req))]
       \<and> ns = retrieve_rag_data_namespace (userId req) (email req)
       \<and> k = topK req \<and> im \<and> \<not> iv"
proof -
  from retrieve_rag_data_calls[of req w E]
  show ?thesis
  proof (elim disjE conjE exE)
    assume "new_calls w (snd (retrieve_rag_data E req w)) = []"
    then show ?thesis using assms by simp
  next
    fix rest
    assume r: "new_calls w (snd (retrieve_rag_data E req w)) = EncodeOne (query req) # rest"
      and all: "\<forall>qv k flt ns im iv. IndexQuery qv k flt ns im iv \<in> set rest \<longrightarrow>
                flt = Some [(''user_id'', MStr (userId req))]
              \<and> ns = retrieve_rag_data_namespace (userId req) (email req)
              \<and> k = topK req \<and> im \<and> \<not> iv"
    have "IndexQuery qv k flt ns im iv \<in> set rest" using assms r by simp
    with all show ?thesis by blast
  qed
qed

text \<open>
  C1 (as amended). Tenant isolation: for two distinct tenants A and B, let \<open>v\<close> be a
  record that A's store request sent to the index, and take the index query that B's
  query request issues. It carries both the namespace derived from B's ids and the
  filter \<^verbatim>\<open>{"user_id": B}\<close>. Whatever the state of the index, and whatever namespace it
  searches, no match it returns for that filter is \<open>v\<close>: every match carries
  \<^verbatim>\<open>user_id = B\<close> and \<open>v\<close> carries \<^verbatim>\<open>user_id = A\<close>. So the metadata filter alone excludes the
  records of another tenant; the namespace restriction alone does so only when the
  two derived namespaces differ (see the counterexample below and C3).
\<close>

theorem tenant_isolation:
  assumes "userId reqA \<noteq> userId reqB"
    and "IndexUpsert batch nsA \<in> set (new_calls wA (snd (store_rag_data E reqA wA)))"
    and "v \<in> set batch"
    and "IndexQuery qv k flt ns im iv \<in> set (new_calls wB (snd (retrieve_rag_data E reqB wB)))"
    and "pinecone_query sim s qv k flt ns' im iv = Inr ms"
    and "m \<in> set ms"
  shows "sv_metadata m \<noteq> vec_metadata v
       \<and> map_of (sv_metadata m) ''user_id'' = Some (MStr (userId reqB))
       \<and> map_of (vec_metadata v) ''user_id'' = Some (MStr (userId reqA))
       \<and> flt = Some [(''user_id'', MStr (userId reqB))]
       \<and> ns = retrieve_rag_data_namespace (userId reqB) (email reqB)"
proof -
  from store_rag_data_calls[of reqA wA E] assms(2)
  obtain rest where
    r: "new_calls wA (snd (store_rag_data E reqA wA)) = SplitText (content reqA) # rest"
    and all: "\<forall>batch ns. IndexUpsert batch ns \<in> set rest \<longrightarrow>
                (\<exists>chunks nodes embs.
                    split_text E (content reqA) = Inr chunks
                  \<and> get_nodes_from_documents E
                       (map (chunk_document reqA (now_isoformat E) (length chunks))
                          (enumerate 0 chunks)) = Inr nodes
                  \<and> ns = store_documents_namespace (userId reqA) (email reqA)
                  \<and> set batch \<subseteq> store_documents_vector (userId reqA) (email reqA)
                                   (title reqA) ` set (zip nodes embs))"
    by (elim disjE conjE exE) simp_all
  have "IndexUpsert batch nsA \<in> set rest"
    using assms(2) r by simp
  with all obtain nodes embs where
    "set batch \<subseteq> store_documents_vector (userId reqA) (email reqA) (title reqA)
                    ` set (zip nodes embs)"
    by blast
  with assms(3) obtain ne where
    "v = store_documents_vector (userId reqA) (email reqA) (title reqA) ne"
    by auto
  then have a: "map_of (vec_metadata v) ''user_id'' = Some (MStr (userId reqA))"
    by (simp add: vector_user_id)
  from retrieve_query_call[OF assms(4)]
  have q: "flt = Some [(''user_id'', MStr (userId reqB))]"
    "ns = retrieve_rag_data_namespace (userId reqB) (email reqB)" "im"
    by simp_all
  from pinecone_query_sound[OF assms(5) assms(6)] q(1) q(3)
  have b: "map_of (sv_metadata m) ''user_id'' = Some (MStr (userId reqB))"
    by (auto simp add: matches_user_filter)
  have "sv_metadata m \<noteq> vec_metadata v"
    using a b assms(1) by auto
  then show ?thesis using a b q by simp
qed

lemma hello_not_blank: "\<not> whitespace_only ''hello''" "\<not> whitespace_only ''world''"
  by (simp_all add: whitespace_only_def py_isspace_def)

lemma demo_store_empty:
  "\<not> whitespace_only c \<Longrightarrow>
   store_rag_data (demo_env 1000) (demo_request u e c) empty_world
     = (Inr \<lparr>documentId = e, indexed = True\<rparr>,
        \<lparr>calls = [SplitText c, GetNodes [demo_document u e c], EncodeMany [c],
                   IndexUpsert [demo_vector u e c] (store_documents_namespace u e)],
         index = [(store_documents_namespace u e, demo_vector u e c)]\<rparr>)"
  using demo_store[of c "[]" 1000 u e "[]"] by (simp add: empty_world_def)

lemma demo_vector_user_id: "map_of (vec_metadata (demo_vector u e c)) ''user_id'' = Some (MStr u)"
  by (simp add: demo_vector_def demo_metadata_def)

lemma demo_query_empty_result:
  assumes "\<not> whitespace_only q"
    and "pinecone_query dot s [of_nat (length q)] 10 (Some [(''user_id'', MStr u)])
           (retrieve_rag_data_namespace u e) True False = Inr []"
  shows "retrieve_rag_data (demo_env cap) (demo_query u e q) \<lparr>calls = cs, index = s\<rparr>
         = (Inr \<lparr>answer = no_information_answer, score = 0\<rparr>,
            \<lparr>calls = cs @ [EncodeOne q,
                           IndexQuery [of_nat (length q)] 10 (Some [(''user_id'', MStr u)])
                             (retrieve_rag_data_namespace u e) True False],
             index = s\<rparr>)"
  using strip_not_whitespace_only[OF assms(1)] assms(2)
  by (simp add: retrieve_rag_data_def demo_query_def embed_text_while_searching_def
        query_vectors_def log_call_def demo_env_sel Let_def)

text \<open>
  C3. The namespace derivation is not injective: the pairs \<open>(a_b, c)\<close> and
  \<open>(a, b_c)\<close> are distinct and both give \<^verbatim>\<open>user_a_b_c\<close>, at store time and at query time.
  After tenant \<open>a\<close> has stored document \<open>b_c\<close>, its record lies in the namespace that
  the query of tenant \<open>a_b\<close> for document \<open>c\<close> searches; that query still finds nothing
  and gets the canned answer, because the metadata filter on \<^verbatim>\<open>user_id\<close> rejects the
  record.
\<close>

theorem namespace_not_injective:
  "(''a_b'', ''c'') \<noteq> (''a'', ''b_c'')
   \<and> store_documents_namespace ''a_b'' ''c'' = ''user_a_b_c''
   \<and> store_documents_namespace ''a'' ''b_c'' = ''user_a_b_c''
   \<and> retrieve_rag_data_namespace ''a_b'' ''c'' = ''user_a_b_c''
   \<and> retrieve_rag_data_namespace ''a'' ''b_c'' = ''user_a_b_c''
   \<and> index (snd (store_rag_data (demo_env 1000) (demo_request ''a'' ''b_c'' ''hello'') empty_world))
       = [(''user_a_b_c'', demo_vector ''a'' ''b_c'' ''hello'')]
   \<and> fst (retrieve_rag_data (demo_env 1000) (demo_query ''a_b'' ''c'' ''hello'')
            (snd (store_rag_data (demo_env 1000) (demo_request ''a'' ''b_c'' ''hello'') empty_world)))
       = Inr \<lparr>answer = no_information_answer, score = 0\<rparr>"
proof -
  have q: "pinecone_query dot [(''user_a_b_c'', demo_vector ''a'' ''b_c'' ''hello'')]
             [of_nat (length ''hello'')] 10 (Some [(''user_id'', MStr ''a_b'')])
             (retrieve_rag_data_namespace ''a_b'' ''c'') True False = Inr []"
    by (simp add: pinecone_query_def matches_user_filter demo_vector_user_id
          retrieve_rag_data_namespace_def)
  show ?thesis
    by (simp add: demo_store_empty hello_not_blank demo_query_empty_result[OF hello_not_blank(1) q]
          store_documents_namespace_def retrieve_rag_data_namespace_def)
qed

text \<open>
  The namespace restriction does not by itself exclude the records of another tenant:
  in the index after tenant \<open>a\<close> has stored document \<open>b_c\<close>, a search of the namespace
  of tenant \<open>a_b\<close> and document \<open>c\<close> without the metadata filter returns the record of
  tenant \<open>a\<close>.
\<close>

theorem namespace_restriction_alone_counterexample:
  "''a'' \<noteq> ''a_b''
   \<and> pinecone_query dot
        (index (snd (store_rag_data (demo_env 1000) (demo_request ''a'' ''b_c'' ''hello'')
                       empty_world)))
        [5] 10 None (retrieve_rag_data_namespace ''a_b'' ''c'') True False
      = Inr [\<lparr>sv_id = ''hello#'', sv_score = 25,
               sv_metadata = vec_metadata (demo_vector ''a'' ''b_c'' ''hello''),
               sv_values = []\<rparr>]
   \<and> map_of (vec_metadata (demo_vector ''a'' ''b_c'' ''hello'')) ''user_id'' = Some (MStr ''a'')"
  by (simp add: demo_store_empty hello_not_blank pinecone_query_def matches_filter_def
        store_documents_namespace_def retrieve_rag_data_namespace_def demo_vector_user_id
        demo_node_sel dot_def)
     (simp add: demo_vector_def)

lemma empty_world_sel: "calls empty_world = []" "index empty_world = []"
  by (simp_all add: empty_world_def)

lemma two_tenant_world_eq:
  "two_tenant_world =
     \<lparr>calls = [SplitText ''hello'', GetNodes [demo_document ''a'' ''b_c'' ''hello''],
               EncodeMany [''hello''],
               IndexUpsert [demo_vector ''a'' ''b_c'' ''hello''] ''user_a_b_c'',
               SplitText ''world'', GetNodes [demo_document ''a_b'' ''c'' ''world''],
               EncodeMany [''world''],
               IndexUpsert [demo_vector ''a_b'' ''c'' ''world''] ''user_a_b_c''],
      index = [(''user_a_b_c'', demo_vector ''a'' ''b_c'' ''hello''),
               (''user_a_b_c'', demo_vector ''a_b'' ''c'' ''world'')]\<rparr>"
  by (simp add: two_tenant_world_def demo_store_empty hello_not_blank
        demo_store[OF hello_not_blank(2)] store_documents_namespace_def demo_node_sel)

lemma two_tenant_query:
  "pinecone_query dot (index two_tenant_world) [5] 10 (Some [(''user_id'', MStr ''a_b'')])
     ''user_a_b_c'' True False
   = Inr [\<lparr>sv_id = ''world#'', sv_score = 25,
            sv_metadata = vec_metadata (demo_vector ''a_b'' ''c'' ''world''),
            sv_values = []\<rparr>]"
  by (simp add: two_tenant_world_eq pinecone_query_def matches_user_filter demo_vector_user_id
        demo_node_sel)
     (simp add: demo_vector_def dot_def)

lemma two_tenant_retrieve_calls:
  "new_calls two_tenant_world
     (snd (retrieve_rag_data (demo_env 1000) (demo_query ''a_b'' ''c'' ''hello'') two_tenant_world))
   = [EncodeOne ''hello'',
      IndexQuery [5] 10 (Some [(''user_id'', MStr ''a_b'')]) ''user_a_b_c'' True False,
      GroqCreate ''hello''
        (map context_chunk
           [\<lparr>res_id = ''world#'', res_score = 25,
             res_metadata = Some (vec_metadata (demo_vector ''a_b'' ''c'' ''world'')),
             res_values = None\<rparr>])]"
proof -
  have ne: "vec_metadata (demo_vector ''a_b'' ''c'' ''world'') \<noteq> []"
    by (simp add: demo_vector_def)
  show ?thesis
    using strip_not_whitespace_only[OF hello_not_blank(1)] two_tenant_query ne
    by (simp add: retrieve_rag_data_def demo_query_def embed_text_while_searching_def
          query_vectors_def generate_response_def log_call_def demo_env_sel Let_def
          new_calls_def retrieve_rag_data_namespace_def)
qed


theorem tenant_isolation_witness:
  "userId (demo_request ''a'' ''b_c'' ''hello'') \<noteq> userId (demo_query ''a_b'' ''c'' ''hello'')
   \<and> IndexUpsert [demo_vector ''a'' ''b_c'' ''hello''] ''user_a_b_c''
       \<in> set (new_calls empty_world
                (snd (store_rag_data (demo_env 1000) (demo_request ''a'' ''b_c'' ''hello'')
                        empty_world)))
   \<and> IndexQuery [5] 10 (Some [(''user_id'', MStr ''a_b'')]) ''user_a_b_c'' True False
       \<in> set (new_calls two_tenant_world
                (snd (retrieve_rag_data (demo_env 1000) (demo_query ''a_b'' ''c'' ''hello'')
                        two_tenant_world)))
   \<and> pinecone_query dot (index two_tenant_world) [5] 10 (Some [(''user_id'', MStr ''a_b'')])
        ''user_a_b_c'' True False
       = Inr [\<lparr>sv_id = ''world#'', sv_score = 25,
                sv_metadata = vec_metadata (demo_vector ''a_b'' ''c'' ''world''),
                sv_values = []\<rparr>]
   \<and> vec_metadata (demo_vector ''a_b'' ''c'' ''world'')
       \<noteq> vec_metadata (demo_vector ''a'' ''b_c'' ''hello'')"
proof -
  let ?A = "demo_request ''a'' ''b_c'' ''hello''"
  let ?B = "demo_query ''a_b'' ''c'' ''hello''"
  let ?vA = "demo_vector ''a'' ''b_c'' ''hello''"
  let ?m = "\<lparr>sv_id = ''world#'', sv_score = 25,
             sv_metadata = vec_metadata (demo_vector ''a_b'' ''c'' ''world''),
             sv_values = []\<rparr> :: rat ScoredVector"
  have h1: "userId ?A \<noteq> userId ?B"
    by (simp add: demo_request_def demo_query_def)
  have h2: "IndexUpsert [?vA] ''user_a_b_c''
              \<in> set (new_calls empty_world (snd (store_rag_data (demo_env 1000) ?A empty_world)))"
    by (simp add: demo_store_empty hello_not_blank new_calls_def empty_world_sel
          store_documents_namespace_def)
  have h3: "?vA \<in> set [?vA]" by simp
  have h4: "IndexQuery [5] 10 (Some [(''user_id'', MStr ''a_b'')]) ''user_a_b_c'' True False
              \<in> set (new_calls two_tenant_world
                       (snd (retrieve_rag_data (demo_env 1000) ?B two_tenant_world)))"
    by (simp add: two_tenant_retrieve_calls)
  have h6: "?m \<in> set [?m]" by simp
  from tenant_isolation[OF h1 h2 h3 h4 two_tenant_query h6]
  have "vec_metadata (demo_vector ''a_b'' ''c'' ''world'') \<noteq> vec_metadata ?vA"
    by simp
  then show ?thesis
    using h1 h2 h4 two_tenant_query by blast
qed

text \<open>
  With an empty tenant id and an empty document id, the store endpoint chunks,
  embeds and upserts under the namespace \<^verbatim>\<open>user__\<close> and answers \<^verbatim>\<open>indexed = True\<close>; the
  query endpoint embeds the query, searches \<^verbatim>\<open>user__\<close> and answers. No error is
  raised.
\<close>

theorem empty_ids_accepted_counterexample:
  "store_rag_data (demo_env 1000) (demo_request [] [] ''hello'') empty_world
     = (Inr \<lparr>documentId = [], indexed = True\<rparr>,
        \<lparr>calls = [SplitText ''hello'', GetNodes [demo_document [] [] ''hello''],
                   EncodeMany [''hello''],
                   IndexUpsert [demo_vector [] [] ''hello''] ''user__''],
         index = [(''user__'', demo_vector [] [] ''hello'')]\<rparr>)
   \<and> retrieve_rag_data (demo_env 1000) (demo_query [] [] ''hello'') empty_world
     = (Inr \<lparr>answer = no_information_answer, score = 0\<rparr>,
        \<lparr>calls = [EncodeOne ''hello'',
                   IndexQuery [5] 10 (Some [(''user_id'', MStr [])]) ''user__'' True False],
         index = []\<rparr>)"
proof -
  have q: "pinecone_query dot [] [of_nat (length ''hello'')] 10 (Some [(''user_id'', MStr [])])
             (retrieve_rag_data_namespace [] []) True False = Inr []"
    by (simp add: pinecone_query_def)
  have r: "retrieve_rag_data (demo_env 1000) (demo_query [] [] ''hello'') empty_world
     = (Inr \<lparr>answer = no_information_answer, score = 0\<rparr>,
        \<lparr>calls = [EncodeOne ''hello'',
                   IndexQuery [5] 10 (Some [(''user_id'', MStr [])]) ''user__'' True False],
         index = []\<rparr>)"
    using demo_query_empty_result[OF hello_not_blank(1) q, of 1000 "[]"]
    by (simp add: empty_world_def retrieve_rag_data_namespace_def)
  have st: "store_rag_data (demo_env 1000) (demo_request [] [] ''hello'') empty_world
     = (Inr \<lparr>documentId = [], indexed = True\<rparr>,
        \<lparr>calls = [SplitText ''hello'', GetNodes [demo_document [] [] ''hello''],
                   EncodeMany [''hello''],
                   IndexUpsert [demo_vector [] [] ''hello''] ''user__''],
         index = [(''user__'', demo_vector [] [] ''hello'')]\<rparr>)"
    by (simp add: demo_store_empty hello_not_blank store_documents_namespace_def)
  show ?thesis
    by (rule conjI[OF st r])
qed

theorem ids_are_not_validated_witness:
  "\<not> whitespace_only (content (demo_request [] [] ''hello''))
   \<and> userId (demo_request [] [] ''hello'') = [] \<and> email (demo_request [] [] ''hello'') = []
   \<and> (\<exists>rest. new_calls empty_world
                 (snd (store_rag_data (demo_env 1000) (demo_request [] [] ''hello'') empty_world))
               = SplitText ''hello'' # rest)
   \<and> (\<forall>d. fst (store_rag_data (demo_env 1000) (demo_request [] [] ''hello'') empty_world)
            \<noteq> Inl (HTTPException 400 d))
   \<and> \<not> whitespace_only (query (demo_query [] [] ''hello''))
   \<and> userId (demo_query [] [] ''hello'') = [] \<and> email (demo_query [] [] ''hello'') = []
   \<and> (\<exists>rest. new_calls empty_world
                 (snd (retrieve_rag_data (demo_env 1000) (demo_query [] [] ''hello'') empty_world))
               = EncodeOne ''hello'' # rest)
   \<and> (\<forall>d. fst (retrieve_rag_data (demo_env 1000) (demo_query [] [] ''hello'') empty_world)
            \<noteq> Inl (HTTPException 400 d))"
proof -
  have a: "\<not> whitespace_only (content (demo_request [] [] ''hello''))"
    by (simp add: demo_request_def hello_not_blank)
  have b: "\<not> whitespace_only (query (demo_query [] [] ''hello''))"
    by (simp add: demo_query_def hello_not_blank)
  have c: "content (demo_request [] [] ''hello'') = ''hello''"
    "query (demo_query [] [] ''hello'') = ''hello''"
    "userId (demo_request [] [] ''hello'') = []" "email (demo_request [] [] ''hello'') = []"
    "userId (demo_query [] [] ''hello'') = []" "email (demo_query [] [] ''hello'') = []"
    by (simp_all add: demo_request_def demo_query_def)
  from ids_are_not_validated[of "demo_request [] [] ''hello''" empty_world "demo_env 1000"
         "demo_query [] [] ''hello''"] a b
  show ?thesis unfolding c by blast
qed

lemma demo_nodes_inherit_metadata: "nodes_inherit_metadata (demo_env cap)"
proof -
  have "\<exists>d\<in>set docs. node_metadata n = Some (extra_info d)"
    if "n \<in> set (map demo_node (enumerate 0 docs))" for n docs
  proof -
    from that obtain i d where id: "(i, d) \<in> set (enumerate 0 docs)" and n: "n = demo_node (i, d)"
      by auto
    from id have "d \<in> set docs" by (auto simp add: in_set_enumerate_eq)
    then show ?thesis using n by (auto simp add: demo_node_sel)
  qed
  then show ?thesis
    by (auto simp add: nodes_inherit_metadata_def demo_env_sel)
qed

theorem chunk_metadata_invariant_witness:
  "IndexUpsert [demo_vector ''u1'' ''d1'' ''hello''] ''user_u1_d1''
     \<in> set (new_calls empty_world
              (snd (store_rag_data (demo_env 1000) (demo_request ''u1'' ''d1'' ''hello'')
                      empty_world)))
   \<and> nodes_inherit_metadata (demo_env 1000)
   \<and> split_text (demo_env 1000) ''hello'' = Inr [''hello'']
   \<and> map_of (vec_metadata (demo_vector ''u1'' ''d1'' ''hello'')) ''user_id'' = Some (MStr ''u1'')
   \<and> store_documents_namespace ''u1'' ''d1'' = ''user_u1_d1''
   \<and> map_of (vec_metadata (demo_vector ''u1'' ''d1'' ''hello'')) ''chunk_index'' = Some (MInt 0)
   \<and> map_of (vec_metadata (demo_vector ''u1'' ''d1'' ''hello'')) ''total_chunks'' = Some (MInt 1)"
proof -
  let ?r = "demo_request ''u1'' ''d1'' ''hello''"
  let ?v = "demo_vector ''u1'' ''d1'' ''hello''"
  have h1: "IndexUpsert [?v] ''user_u1_d1''
              \<in> set (new_calls empty_world (snd (store_rag_data (demo_env 1000) ?r empty_world)))"
    by (simp add: demo_store_empty hello_not_blank new_calls_def empty_world_sel
          store_documents_namespace_def)
  have h2: "?v \<in> set [?v]" by simp
  from chunk_metadata_invariant[OF h1 h2]
  have u: "map_of (vec_metadata ?v) ''user_id'' = Some (MStr ''u1'')"
    and n: "store_documents_namespace ''u1'' ''d1'' = ''user_u1_d1''"
    by (simp_all add: demo_request_def)
  have sp: "split_text (demo_env 1000) ''hello'' = Inr [''hello'']"
    by (simp add: demo_env_sel)
  have ci: "map_of (vec_metadata ?v) ''chunk_index'' = Some (MInt 0)"
    "map_of (vec_metadata ?v) ''total_chunks'' = Some (MInt 1)"
    by (simp_all add: demo_vector_def demo_metadata_def)
  show ?thesis
    using h1 demo_nodes_inherit_metadata[of 1000] sp u n ci by blast
qed

section \<open>Properties: the singleton getters\<close>

text \<open>
  A thread that runs alone does what the getter does.
\<close>

lemma thread_alone_is_get_service:
  "run_schedule new [0, 0, 0, 0] ([Check], g)
     = ([case fst (get_service new g) of Inl e \<Rightarrow> Raised e | Inr r \<Rightarrow> Returned r],
        snd (get_service new g))"
  by (cases "service_instance g"; cases "new (length (constructed g))")
     (simp_all add: thread_step_def get_service_def)

lemma get_service_inv:
  assumes "singleton_inv g" and "get_service new g = (r, g')"
  shows "singleton_inv g'
       \<and> (\<forall>i. r = Inr i \<longrightarrow> i = service_instance g' \<and> i \<noteq> None)
       \<and> (service_instance g \<noteq> None \<longrightarrow> g' = g)"
  using assms
  by (auto simp add: singleton_inv_def get_service_def split: option.splits sum.splits)

lemma get_service_times_fixed:
  "service_instance g \<noteq> None \<Longrightarrow> get_service_times new n g = (rs, g')
   \<Longrightarrow> g' = g \<and> (\<forall>r\<in>set rs. r = Inr (service_instance g))"
proof (induction n arbitrary: g rs g')
  case 0
  then show ?case by simp
next
  case (Suc n)
  obtain x where x: "service_instance g = Some x" using Suc.prems(1) by auto
  then have gs: "get_service new g = (Inr (Some x), g)" by (simp add: get_service_def)
  obtain rs' g'' where t: "get_service_times new n g = (rs', g'')"
    by (cases "get_service_times new n g") auto
  from Suc.IH[OF Suc.prems(1) t] Suc.prems(2) gs t x show ?case by auto
qed

lemma get_service_times_inv:
  "singleton_inv g \<Longrightarrow> get_service_times new n g = (rs, g')
   \<Longrightarrow> singleton_inv g' \<and> (\<forall>r\<in>set rs. \<forall>i. r = Inr i \<longrightarrow> i = service_instance g' \<and> i \<noteq> None)"
proof (induction n arbitrary: g rs g')
  case 0
  then show ?case by simp
next
  case (Suc n)
  obtain r g1 where gs: "get_service new g = (r, g1)" by (cases "get_service new g") auto
  obtain rs' g2 where t: "get_service_times new n g1 = (rs', g2)"
    by (cases "get_service_times new n g1") auto
  from Suc.prems(2) gs t have eq: "rs = r # rs'" "g' = g2" by simp_all
  note one = get_service_inv[OF Suc.prems(1) gs]
  note rest = Suc.IH[OF one[THEN conjunct1] t]
  have "\<forall>i. r = Inr i \<longrightarrow> i = service_instance g2 \<and> i \<noteq> None"
  proof (intro allI impI)
    fix i assume ri: "r = Inr i"
    with one have i: "i = service_instance g1" "i \<noteq> None" by auto
    then have "service_instance g1 \<noteq> None" by simp
    from get_service_times_fixed[OF this t] have "g2 = g1" by simp
    then show "i = service_instance g2 \<and> i \<noteq> None" using i by simp
  qed
  then show ?case using rest eq by auto
qed

text \<open>
  Two threads that both make a first call: thread 0 tests the global, thread 1 tests
  the global, then each constructs, assigns and returns.
\<close>

lemma two_threads_race:
  "run_schedule (\<lambda>k. Inr k) [0, 1, 0, 0, 0, 1, 1, 1]
     ([Check, Check], \<lparr>service_instance = None, constructed = []\<rparr>)
   = ([Returned (Some 0), Returned (Some (Suc 0))],
      \<lparr>service_instance = Some (Suc 0), constructed = [0, Suc 0]\<rparr>)"
  by (simp add: thread_step_def)

text \<open>
  C10 (as amended). The getters hold no mutex or other exclusive-initialization
  primitive around the check-and-create step. Calls made one after the other, from
  the state in which nothing has been created, construct at most one instance, and
  every call that returns returns that instance. Two concurrent first calls can both
  find the global empty and construct two instances.
\<close>

theorem sequential_calls_construct_once:
  "(service_instance g = None \<and> constructed g = [] \<longrightarrow>
      length (constructed (snd (get_service_times new n g))) \<le> 1
      \<and> (\<forall>r\<in>set (fst (get_service_times new n g)). \<forall>i. r = Inr i \<longrightarrow>
            (\<exists>x. i = Some x \<and> constructed (snd (get_service_times new n g)) = [x])))
   \<and> (\<exists>sched. length (constructed (snd (run_schedule (\<lambda>k. Inr k) sched
                    ([Check, Check], \<lparr>service_instance = None, constructed = []\<rparr>)))) = 2)"
proof -
  have a: "length (constructed (snd (get_service_times new n g))) \<le> 1
      \<and> (\<forall>r\<in>set (fst (get_service_times new n g)). \<forall>i. r = Inr i \<longrightarrow>
            (\<exists>x. i = Some x \<and> constructed (snd (get_service_times new n g)) = [x]))"
    if g: "service_instance g = None \<and> constructed g = []"
  proof -
    obtain rs g' where t: "get_service_times new n g = (rs, g')"
      by (cases "get_service_times new n g") auto
    have "singleton_inv g" using g by (simp add: singleton_inv_def)
    from get_service_times_inv[OF this t]
    have inv: "singleton_inv g'"
      and res: "\<forall>r\<in>set rs. \<forall>i. r = Inr i \<longrightarrow> i = service_instance g' \<and> i \<noteq> None"
      by auto
    have "length (constructed g') \<le> 1"
      using inv by (auto simp add: singleton_inv_def)
    moreover have "\<forall>r\<in>set rs. \<forall>i. r = Inr i \<longrightarrow> (\<exists>x. i = Some x \<and> constructed g' = [x])"
      using inv res by (auto simp add: singleton_inv_def)
    ultimately show ?thesis using t by simp
  qed
  have b: "\<exists>sched. length (constructed (snd (run_schedule (\<lambda>k. Inr k) sched
             ([Check, Check], \<lparr>service_instance = None, constructed = ([]::nat list)\<rparr>)))) = 2"
    using two_threads_race by (intro exI[of _ "[0, 1, 0, 0, 0, 1, 1, 1]"]) simp
  show ?thesis using a b by blast
qed

text \<open>
  Under two concurrent first calls two instances are constructed; the first caller
  holds instance 0, the second caller and the global hold instance 1.
\<close>

theorem concurrent_first_calls_counterexample:
  "run_schedule (\<lambda>k. Inr k) [0, 1, 0, 0, 0, 1, 1, 1]
     ([Check, Check], \<lparr>service_instance = None, constructed = []\<rparr>)
   = ([Returned (Some 0), Returned (Some 1)],
      \<lparr>service_instance = Some 1, constructed = [0, 1 :: nat]\<rparr>)"
  using two_threads_race by simp

theorem sequential_calls_construct_once_witness:
  "service_instance \<lparr>service_instance = None, constructed = ([] :: nat list)\<rparr> = None
   \<and> constructed \<lparr>service_instance = None, constructed = ([] :: nat list)\<rparr> = []
   \<and> get_service_times (\<lambda>k. Inr k) 3 \<lparr>service_instance = None, constructed = []\<rparr>
       = ([Inr (Some 0), Inr (Some 0), Inr (Some 0)],
          \<lparr>service_instance = Some 0, constructed = [0 :: nat]\<rparr>)
   \<and> length (constructed (snd (get_service_times (\<lambda>k. Inr k) 3
               \<lparr>service_instance = None, constructed = ([] :: nat list)\<rparr>))) \<le> 1"
proof -
  let ?g = "\<lparr>service_instance = None, constructed = ([] :: nat list)\<rparr>"
  have e: "get_service_times (\<lambda>k. Inr k) 3 ?g
             = ([Inr (Some 0), Inr (Some 0), Inr (Some 0)],
                \<lparr>service_instance = Some 0, constructed = [0 :: nat]\<rparr>)"
    by (simp add: numeral_3_eq_3 get_service_def)
  have "length (constructed (snd (get_service_times (\<lambda>k. Inr k) 3 ?g))) \<le> 1"
    using sequential_calls_construct_once[of ?g "\<lambda>k. Inr k" 3, THEN conjunct1] by simp
  then show ?thesis using e by simp
qed

end
